theory Spec2Isabelle
  imports Main "HOL-Library.AList" "HOL-Library.Sublist"
begin

section \<open>Strings and errors\<close>

text \<open>
  A Python \<open>str\<close> is modelled as a \<open>string\<close> whose characters stand for the code points
  0 to 255 (Latin-1).  On this range the class \<open>\d\<close> of Python's \<open>re\<close> holds exactly the
  ten characters 0 to 9, and \<open>str.lower\<close> maps A-Z and the accented capitals
  192-222 (without 215, the multiplication sign) to the character 32 places further.
\<close>

datatype py_error =
    KeyError string
  | TypeError
  | AttributeError
  | ValueError
  | IndexError
  | IOError
  | ApiError
  | Beyond_Model

definition is_digit :: "char \<Rightarrow> bool" where
  "is_digit c = (c \<in> set ''0123456789'')"

definition lower_char :: "char \<Rightarrow> char" where
  "lower_char c =
     (let n = of_char c :: nat
      in if (65 \<le> n \<and> n \<le> 90) \<or> (192 \<le> n \<and> n \<le> 222 \<and> n \<noteq> 215)
         then char_of (n + 32) else c)"

definition lower :: "string \<Rightarrow> string" where
  "lower s = map lower_char s"

section \<open>The job-name pattern\<close>

text \<open>
  \<open>__application_job_id\<close> compiles
  \<^verbatim>\<open>rf'^({application_name})-(SNAPSHOT|\d+\.\d+\.\d+)$'\<close>: the application name is
  pasted into the pattern as it is, so its characters are read as pattern syntax.
  The model reads this fragment of the syntax inside the first group: ordinary
  characters, the dot, and the greedy repetitions \<open>?\<close>, \<open>*\<close> and \<open>+\<close> of one character or
  dot.  Any other name (a backslash, a bracket, a brace, a bar, a parenthesis, an anchor,
  a repetition at the start or after another repetition) gives \<open>Beyond_Model\<close>: there
  \<open>re.compile\<close> raises or builds a pattern the model does not describe.
\<close>

datatype atom = Lit char | Dot | Digit

datatype rep = Once | Opt | Star | Plus

type_synonym item = "atom \<times> rep"

definition is_rep_char :: "char \<Rightarrow> bool" where
  "is_rep_char c = (c = CHR ''?'' \<or> c = CHR ''*'' \<or> c = CHR ''+'')"

definition is_special :: "char \<Rightarrow> bool" where
  "is_special c = (c \<in> set (CHR 0x5C # ''^$.|?*+()[]{}''))"

definition rep_of :: "char \<Rightarrow> rep" where
  "rep_of c = (if c = CHR ''?'' then Opt else if c = CHR ''*'' then Star else Plus)"

definition atom_of :: "char \<Rightarrow> atom" where
  "atom_of c = (if c = CHR ''.'' then Dot else Lit c)"

fun parse_items :: "string \<Rightarrow> py_error + item list" where
  "parse_items [] = Inr []"
| "parse_items [c] =
     (if is_special c \<and> c \<noteq> CHR ''.'' then Inl Beyond_Model else Inr [(atom_of c, Once)])"
| "parse_items (c # q # cs) =
     (if is_special c \<and> c \<noteq> CHR ''.'' then Inl Beyond_Model
      else if is_rep_char q then
        (case cs of
           [] \<Rightarrow> Inr [(atom_of c, rep_of q)]
         | d # _ \<Rightarrow>
             if is_rep_char d then Inl Beyond_Model
             else (case parse_items cs of
                     Inl e \<Rightarrow> Inl e
                   | Inr ps \<Rightarrow> Inr ((atom_of c, rep_of q) # ps)))
      else (case parse_items (q # cs) of
              Inl e \<Rightarrow> Inl e
            | Inr ps \<Rightarrow> Inr ((atom_of c, Once) # ps)))"

text \<open>\<open>re.compile\<close> on the pattern built from the name: the items of the first group.\<close>

definition re_compile :: "string \<Rightarrow> py_error + item list" where
  "re_compile application_name = parse_items application_name"

fun atom_ok :: "atom \<Rightarrow> char \<Rightarrow> bool" where
  "atom_ok (Lit l) c = (c = l)"
| "atom_ok Dot c = (c \<noteq> CHR 0x0A)"
| "atom_ok Digit c = is_digit c"

text \<open>
  The backtracking matcher: \<open>runs ps s\<close> lists, in the order in which the engine tries
  them, the rests of \<open>s\<close> left over after the items \<open>ps\<close> matched a prefix of \<open>s\<close>.
  A greedy repetition first takes one more character and only then gives up.
\<close>

fun runs :: "item list \<Rightarrow> string \<Rightarrow> string list" where
  "runs [] s = [s]"
| "runs ((a, Once) # ps) [] = []"
| "runs ((a, Once) # ps) (c # cs) = (if atom_ok a c then runs ps cs else [])"
| "runs ((a, Opt) # ps) [] = runs ps []"
| "runs ((a, Opt) # ps) (c # cs) =
     (if atom_ok a c then runs ps cs else []) @ runs ps (c # cs)"
| "runs ((a, Star) # ps) [] = runs ps []"
| "runs ((a, Star) # ps) (c # cs) =
     (if atom_ok a c then runs ((a, Star) # ps) cs else []) @ runs ps (c # cs)"
| "runs ((a, Plus) # ps) [] = []"
| "runs ((a, Plus) # ps) (c # cs) =
     (if atom_ok a c then runs ((a, Star) # ps) cs else [])"

text \<open>
  \<open>$\<close> without the MULTILINE flag: the end of the string, or the place just before a
  line feed that ends the string.
\<close>

definition at_end :: "string \<Rightarrow> bool" where
  "at_end r = (r = [] \<or> r = [CHR 0x0A])"

definition version_items :: "item list" where
  "version_items =
     [(Digit, Plus), (Lit (CHR ''.''), Once), (Digit, Plus), (Lit (CHR ''.''), Once),
      (Digit, Plus)]"

text \<open>The rest of the pattern after the first group: \<^verbatim>\<open>-(SNAPSHOT|\d+\.\d+\.\d+)$\<close>.\<close>

definition tail_ok :: "string \<Rightarrow> bool" where
  "tail_ok r =
     (case r of
        [] \<Rightarrow> False
      | c # v \<Rightarrow>
          c = CHR ''-'' \<and>
          (list_ex at_end (runs (map (\<lambda>l. (Lit l, Once)) ''SNAPSHOT'') v) \<or>
           list_ex at_end (runs version_items v)))"

text \<open>
  \<open>regex.search(job_name)\<close>: the pattern starts with \<open>^\<close>, so only a match at the start
  of the name counts.  The result is \<open>groups()[0]\<close> of the first match in backtracking
  order, the text of the first group (the only group that \<open>has_match\<close> reads).
\<close>

definition re_search :: "item list \<Rightarrow> string \<Rightarrow> string option" where
  "re_search regex job_name =
     (case filter tail_ok (runs regex job_name) of
        [] \<Rightarrow> None
      | r # _ \<Rightarrow> Some (take (length job_name - length r) job_name))"

definition has_match :: "item list \<Rightarrow> string \<Rightarrow> string \<Rightarrow> bool" where
  "has_match regex application_name job_name =
     (case re_search regex job_name of
        None \<Rightarrow> False
      | Some g \<Rightarrow> g = application_name)"

record JobConfig =
  name :: string
  job_id :: int

text \<open>\<open>next((_.job_id for _ in jobs if has_match(_.name)), None)\<close>\<close>

definition application_job_id :: "string \<Rightarrow> JobConfig list \<Rightarrow> py_error + int option" where
  "application_job_id application_name jobs =
     (case re_compile application_name of
        Inl e \<Rightarrow> Inl e
      | Inr regex \<Rightarrow>
          Inr (map_option job_id
                 (find (\<lambda>j. has_match regex application_name (name j)) jobs)))"

section \<open>JSON values and the job template\<close>

text \<open>
  What \<open>json.load\<close> returns: \<open>None\<close>, a bool, an int, a float, a str, a list or a dict.
  A dict keeps its keys in insertion order, so it is an association list; \<open>d[k] = v\<close>
  replaces the value in place when \<open>k\<close> is there and adds the pair at the end otherwise,
  which is \<open>AList.update\<close>.  A float is never inspected by the script: it is kept as
  mantissa and binary exponent.
\<close>

datatype json =
    JNull
  | JBool bool
  | JInt int
  | JFloat int int
  | JStr string
  | JList "json list"
  | JDict "(string \<times> json) list"

definition bind_res :: "py_error + 'a \<Rightarrow> ('a \<Rightarrow> py_error + 'b) \<Rightarrow> py_error + 'b" where
  "bind_res m f = (case m of Inl e \<Rightarrow> Inl e | Inr x \<Rightarrow> f x)"

text \<open>\<open>obj[key]\<close> with a string key: only a dict can answer, every other value raises TypeError.\<close>

fun getitem :: "json \<Rightarrow> string \<Rightarrow> py_error + json" where
  "getitem (JDict d) k = (case map_of d k of None \<Rightarrow> Inl (KeyError k) | Some v \<Rightarrow> Inr v)"
| "getitem _ k = Inl TypeError"

text \<open>\<open>obj[key] = value\<close> with a string key.\<close>

fun setitem :: "json \<Rightarrow> string \<Rightarrow> json \<Rightarrow> py_error + json" where
  "setitem (JDict d) k v = Inr (JDict (AList.update k v d))"
| "setitem _ k v = Inl TypeError"

text \<open>\<open>obj.append(value)\<close>: only a list has the method.\<close>

fun list_append :: "json \<Rightarrow> json \<Rightarrow> py_error + json" where
  "list_append (JList xs) v = Inr (JList (xs @ [v]))"
| "list_append _ v = Inl AttributeError"

text \<open>\<open>obj.keys()\<close>: only a dict has the method.\<close>

fun keys :: "json \<Rightarrow> py_error + string list" where
  "keys (JDict d) = Inr (map fst d)"
| "keys _ = Inl AttributeError"

text \<open>
  \<open>template.format(dtap=value)\<close> with the single keyword argument \<open>dtap\<close>.  The text is
  scanned from the left, outside a field (\<open>None\<close>) or inside one (\<open>Some acc\<close>, the
  characters of the field read so far, last first): \<open>{{\<close> and \<open>}}\<close> stand for one
  brace, \<open>{dtap}\<close> is replaced by the value, a lone \<open>}\<close> or an unclosed \<open>{\<close> raises
  ValueError, an empty or numbered field raises IndexError (there is no positional
  argument), any other plain field name raises KeyError.  A field with a conversion, a
  format specification, an attribute or an index (one of the characters
  \<open>! : . [ ] {\<close>) and a number of ten digits or more are outside the model.
\<close>

definition field_special :: "char \<Rightarrow> bool" where
  "field_special c = (c \<in> set ''{!:.[]'')"

definition replace_field :: "string \<Rightarrow> string \<Rightarrow> py_error + string" where
  "replace_field field v =
     (if list_ex field_special field then Inl Beyond_Model
      else if field = ''dtap'' then Inr v
      else if list_all is_digit field then
        (if length field < 10 then Inl IndexError else Inl Beyond_Model)
      else Inl (KeyError field))"

fun scan_format :: "string option \<Rightarrow> string \<Rightarrow> string \<Rightarrow> py_error + string" where
  "scan_format None [] v = Inr []"
| "scan_format None [c] v =
     (if c = CHR ''{'' \<or> c = CHR ''}'' then Inl ValueError else Inr [c])"
| "scan_format None (c # d # ds) v =
     (if c = CHR ''{'' then
        (if d = CHR ''{'' then bind_res (scan_format None ds v) (\<lambda>r. Inr (CHR ''{'' # r))
         else scan_format (Some []) (d # ds) v)
      else if c = CHR ''}'' then
        (if d = CHR ''}'' then bind_res (scan_format None ds v) (\<lambda>r. Inr (CHR ''}'' # r))
         else Inl ValueError)
      else bind_res (scan_format None (d # ds) v) (\<lambda>r. Inr (c # r)))"
| "scan_format (Some acc) [] v = Inl ValueError"
| "scan_format (Some acc) (c # cs) v =
     (if c = CHR ''}'' then
        bind_res (replace_field (rev acc) v)
          (\<lambda>x. bind_res (scan_format None cs v) (\<lambda>r. Inr (x @ r)))
      else scan_format (Some (c # acc)) cs v)"

definition str_format :: "string \<Rightarrow> string \<Rightarrow> py_error + string" where
  "str_format template v = scan_format None template v"

text \<open>The method \<open>format\<close> exists on a str only.\<close>

fun format_value :: "json \<Rightarrow> string \<Rightarrow> py_error + json" where
  "format_value (JStr s) v = bind_res (str_format s v) (\<lambda>r. Inr (JStr r))"
| "format_value _ v = Inl AttributeError"

section \<open>The world the script runs in\<close>

datatype api_call =
    ListJobs
  | DeleteJob int
  | ListRuns int "bool option" "bool option" "int option" "int option"
  | CancelRun int
  | CreateJob json
  | RunNow int "json option" "json option" "json option" "json option"

datatype printed = Print string | Pprint json

record git_tag =
  tag_name :: string
  tag_commit :: string

text \<open>
  The environment variables, the tags and head commit of the repository, the parsed JSON
  files on disk, the remote job service (its jobs, the id it gives to the next job, the
  first page of active runs it reports for a job, the requests it refuses), the log of
  the requests sent to it, and what was printed.
\<close>

record world =
  environ :: "string \<Rightarrow> string option"
  repo_tags :: "git_tag list"
  head_commit :: string
  files :: "string \<Rightarrow> json option"
  jobs :: "JobConfig list"
  next_job_id :: int
  runs_page :: "int \<Rightarrow> int list option"
  refused :: "api_call \<Rightarrow> bool"
  calls :: "api_call list"
  stdout :: "printed list"

type_synonym 'a io = "world \<Rightarrow> (py_error + 'a) \<times> world"

definition return_io :: "'a \<Rightarrow> 'a io" where
  "return_io x w = (Inr x, w)"

definition lift_io :: "py_error + 'a \<Rightarrow> 'a io" where
  "lift_io r w = (r, w)"

text \<open>Sequencing: an exception ends the run and leaves the world as it is at that point.\<close>

definition bind_io :: "'a io \<Rightarrow> ('a \<Rightarrow> 'b io) \<Rightarrow> 'b io" where
  "bind_io m f w = (case m w of (Inl e, w') \<Rightarrow> (Inl e, w') | (Inr x, w') \<Rightarrow> f x w')"

text \<open>\<open>os.environ[key]\<close>\<close>

definition getenv :: "string \<Rightarrow> string io" where
  "getenv key w = (case environ w key of None \<Rightarrow> (Inl (KeyError key), w) | Some v \<Rightarrow> (Inr v, w))"

definition print :: "string \<Rightarrow> unit io" where
  "print s w = (Inr (), w\<lparr>stdout := stdout w @ [Print s]\<rparr>)"

definition pprint :: "json \<Rightarrow> unit io" where
  "pprint j w = (Inr (), w\<lparr>stdout := stdout w @ [Pprint j]\<rparr>)"

subsection \<open>The remote job service\<close>

text \<open>
  Modelled from the spec: the remote job-management API (the package \<open>databricks_cli\<close>),
  which the script calls and does not contain.  Every request is logged; a refused
  request raises and changes nothing else.  \<open>list_jobs\<close> answers with the name and id of
  every job, \<open>delete_job\<close> removes the job with the id, \<open>create_job\<close> stores a job under
  the name of its config with an id never given before and answers with that id,
  \<open>list_runs\<close> answers with the first page of active runs of the job (\<open>None\<close>: the answer
  has no key \<open>runs\<close>), \<open>cancel_run\<close> and \<open>run_now\<close> only reach the service.
  A config without a string under \<open>name\<close> is stored under the name \<open>Untitled\<close>; the
  builder always sets the name.
\<close>

definition request :: "api_call \<Rightarrow> unit io" where
  "request c w =
     (if refused w c then (Inl ApiError, w\<lparr>calls := calls w @ [c]\<rparr>)
      else (Inr (), w\<lparr>calls := calls w @ [c]\<rparr>))"

definition list_jobs :: "JobConfig list io" where
  "list_jobs = bind_io (request ListJobs) (\<lambda>_ w. (Inr (jobs w), w))"

definition delete_job :: "int \<Rightarrow> unit io" where
  "delete_job i =
     bind_io (request (DeleteJob i))
       (\<lambda>_ w. (Inr (), w\<lparr>jobs := filter (\<lambda>j. job_id j \<noteq> i) (jobs w)\<rparr>))"

definition list_runs ::
  "int \<Rightarrow> bool option \<Rightarrow> bool option \<Rightarrow> int option \<Rightarrow> int option \<Rightarrow> int list option io" where
  "list_runs i active_only completed_only offset limit =
     bind_io (request (ListRuns i active_only completed_only offset limit))
       (\<lambda>_ w. (Inr (runs_page w i), w))"

definition cancel_run :: "int \<Rightarrow> unit io" where
  "cancel_run r = request (CancelRun r)"

definition config_name :: "json \<Rightarrow> string" where
  "config_name job_config =
     (case getitem job_config ''name'' of Inr (JStr n) \<Rightarrow> n | _ \<Rightarrow> ''Untitled'')"

definition create_job :: "json \<Rightarrow> int io" where
  "create_job job_config =
     bind_io (request (CreateJob job_config))
       (\<lambda>_ w. (Inr (next_job_id w),
                w\<lparr>jobs := jobs w @ [\<lparr>name = config_name job_config, job_id = next_job_id w\<rparr>],
                  next_job_id := next_job_id w + 1\<rparr>))"

definition run_now ::
  "int \<Rightarrow> json option \<Rightarrow> json option \<Rightarrow> json option \<Rightarrow> json option \<Rightarrow> unit io" where
  "run_now i jar_params notebook_params python_params spark_submit_params =
     request (RunNow i jar_params notebook_params python_params spark_submit_params)"

section \<open>The script\<close>

definition JOB_CFG :: string where
  "JOB_CFG = ''/root/job_config.json''"

definition ROOT_LIBRARY_FOLDER :: string where
  "ROOT_LIBRARY_FOLDER = ''dbfs:/mnt/sdhdev/libraries''"

text \<open>\<open>__read_job_config\<close>: a missing or malformed file raises.\<close>

definition read_job_config :: "string \<Rightarrow> json io" where
  "read_job_config fn w = (case files w fn of None \<Rightarrow> (Inl IOError, w) | Some j \<Rightarrow> (Inr j, w))"

text \<open>
  The three subscripts of the warehouse directory, as the script writes them twice:
  \<open>job_config['new_cluster']['spark_conf']['spark.sql.warehouse.dir']\<close>.
\<close>

definition warehouse_dir :: "json \<Rightarrow> py_error + json" where
  "warehouse_dir job_config =
     bind_res (getitem job_config ''new_cluster'')
       (\<lambda>nc. bind_res (getitem nc ''spark_conf'')
          (\<lambda>sc. getitem sc ''spark.sql.warehouse.dir''))"

text \<open>
  \<open>__construct_job_config\<close>.  The script changes the nested dicts and the list in place;
  the model writes each changed value back into the value that holds it.
\<close>

definition construct_job_config ::
  "string \<Rightarrow> string \<Rightarrow> string \<Rightarrow> string \<Rightarrow> string \<Rightarrow> json io" where
  "construct_job_config fn name' dtap egg python_file =
     bind_io (read_job_config fn)
       (\<lambda>job_config. lift_io
          (bind_res (warehouse_dir job_config)
          (\<lambda>wd. bind_res (format_value wd (lower dtap))
          (\<lambda>wd'. bind_res (getitem job_config ''new_cluster'')
          (\<lambda>nc. bind_res (getitem nc ''spark_conf'')
          (\<lambda>sc. bind_res (setitem sc ''spark.sql.warehouse.dir'' wd')
          (\<lambda>sc'. bind_res (setitem nc ''spark_conf'' sc')
          (\<lambda>nc'. bind_res (setitem job_config ''new_cluster'' nc')
          (\<lambda>c1. bind_res (setitem c1 ''name'' (JStr name'))
          (\<lambda>c2. bind_res (getitem c2 ''spark_python_task'')
          (\<lambda>spt. bind_res (setitem spt ''python_file'' (JStr python_file))
          (\<lambda>spt'. bind_res (setitem c2 ''spark_python_task'' spt')
          (\<lambda>c3. bind_res (getitem c3 ''libraries'')
          (\<lambda>libs. bind_res (list_append libs (JDict [(''egg'', JStr egg)]))
          (\<lambda>libs'. setitem c3 ''libraries'' libs')))))))))))))))"

text \<open>\<open>__kill_it_with_fire\<close>: the cancel requests go out one after the other.\<close>

fun cancel_all :: "int list \<Rightarrow> unit io" where
  "cancel_all [] = return_io ()"
| "cancel_all (r # rs) = bind_io (cancel_run r) (\<lambda>_. cancel_all rs)"

definition kill_it_with_fire :: "int \<Rightarrow> unit io" where
  "kill_it_with_fire job_id' =
     bind_io (list_runs job_id' (Some True) None None None)
       (\<lambda>runs. case runs of None \<Rightarrow> return_io () | Some active_run_ids \<Rightarrow> cancel_all active_run_ids)"

text \<open>\<open>if job_id:\<close> holds for an id other than 0; \<open>None\<close> and 0 are both false.\<close>

definition truthy :: "int option \<Rightarrow> bool" where
  "truthy job_id' = (case job_id' of None \<Rightarrow> False | Some i \<Rightarrow> i \<noteq> 0)"

definition remove_job :: "string \<Rightarrow> bool \<Rightarrow> unit io" where
  "remove_job application_name is_streaming =
     bind_io list_jobs
       (\<lambda>job_configs. bind_io (lift_io (application_job_id application_name job_configs))
          (\<lambda>job_id'.
             if truthy job_id' then
               bind_io (if is_streaming then kill_it_with_fire (the job_id') else return_io ())
                 (\<lambda>_. delete_job (the job_id'))
             else return_io ()))"

definition submit_job :: "json \<Rightarrow> bool \<Rightarrow> unit io" where
  "submit_job job_config is_streaming =
     bind_io (create_job job_config)
       (\<lambda>new_id. if is_streaming then run_now new_id None None None None else return_io ())"

text \<open>\<open>'schedule' in job_config.keys()\<close>\<close>

definition has_schedule :: "json \<Rightarrow> py_error + bool" where
  "has_schedule job_config = bind_res (keys job_config) (\<lambda>ks. Inr (''schedule'' \<in> set ks))"

definition deploy_application :: "string \<Rightarrow> string \<Rightarrow> unit io" where
  "deploy_application version dtap =
     bind_io (getenv ''BUILD_DEFINITIONNAME'')
       (\<lambda>application_name.
     bind_io (construct_job_config JOB_CFG
                (application_name @ ''-'' @ version) dtap
                (ROOT_LIBRARY_FOLDER @ ''/'' @ application_name @ ''/'' @ application_name
                   @ ''-'' @ version @ ''.egg'')
                (ROOT_LIBRARY_FOLDER @ ''/'' @ application_name @ ''/'' @ application_name
                   @ ''-main-'' @ version @ ''.py''))
       (\<lambda>job_config.
     bind_io (print ''Creating databricks client'')
       (\<lambda>_.
     bind_io (getenv (''AZURE_DATABRICKS_TOKEN_'' @ dtap))
       (\<lambda>databricks_token.
     bind_io (getenv (''AZURE_DATABRICKS_HOST_'' @ dtap))
       (\<lambda>databricks_host.
     bind_io (lift_io (has_schedule job_config))
       (\<lambda>is_streaming.
     bind_io (print ''Removing old job'')
       (\<lambda>_.
     bind_io (remove_job application_name is_streaming)
       (\<lambda>_.
     bind_io (print ''Submitting new job with configuration:'')
       (\<lambda>_.
     bind_io (pprint job_config)
       (\<lambda>_. submit_job job_config is_streaming))))))))))"

definition skip_message :: "string \<Rightarrow> string" where
  "skip_message branch =
     ''Not a release (tag not available),'' @ [CHR 0x0A] @
     ''            nor master branch (branch = '' @ [CHR 0x22] @ branch @ [CHR 0x22] @
     ''. Not deploying''"

text \<open>
  \<open>main\<close>: the first tag whose commit is the head commit, then the branch name from the
  environment (read in every case), then one of the three outcomes.
\<close>

definition main :: "unit io" where
  "main w =
     (let tag = find (\<lambda>t. tag_commit t = head_commit w) (repo_tags w)
      in bind_io (getenv ''BUILD_SOURCEBRANCHNAME'')
           (\<lambda>branch.
              case tag of
                Some t \<Rightarrow> deploy_application (tag_name t) ''PRD''
              | None \<Rightarrow>
                  if branch = ''master'' then deploy_application ''SNAPSHOT'' ''DEV''
                  else print (skip_message branch)) w)"

section \<open>Notions used to state the properties\<close>

text \<open>The run ids of the first page the service reports for a job (none without the key).\<close>

definition first_page :: "world \<Rightarrow> int \<Rightarrow> int list" where
  "first_page w i = (case runs_page w i of None \<Rightarrow> [] | Some rs \<Rightarrow> rs)"

text \<open>
  A job name matches the pattern of the application: \<open>regex.search\<close> finds a match,
  whatever the first group holds.
\<close>

definition name_matches :: "string \<Rightarrow> string \<Rightarrow> bool" where
  "name_matches A n =
     (case re_compile A of Inl e \<Rightarrow> False | Inr regex \<Rightarrow> re_search regex n \<noteq> None)"

text \<open>
  A world for the examples: no environment, no files, a service that holds the given
  jobs, answers every request and reports the active runs 70 and 71 for job 7.
\<close>

definition service :: "JobConfig list \<Rightarrow> world" where
  "service js =
     \<lparr>environ = (\<lambda>k. None), repo_tags = [], head_commit = [], files = (\<lambda>f. None),
      jobs = js, next_job_id = 100,
      runs_page = (\<lambda>i. if i = 7 then Some [70, 71] else None),
      refused = (\<lambda>c. False), calls = [], stdout = []\<rparr>"

text \<open>The value found in a JSON document by following dict keys from the top.\<close>

fun lookup_path :: "json \<Rightarrow> string list \<Rightarrow> json option" where
  "lookup_path j [] = Some j"
| "lookup_path (JDict d) (k # ks) =
     (case map_of d k of None \<Rightarrow> None | Some v \<Rightarrow> lookup_path v ks)"
| "lookup_path _ (k # ks) = None"

definition warehouse_path :: "string list" where
  "warehouse_path = [''new_cluster'', ''spark_conf'', ''spark.sql.warehouse.dir'']"

text \<open>The four places the builder writes to.\<close>

definition touched_paths :: "string list list" where
  "touched_paths =
     [warehouse_path, [''name''], [''spark_python_task'', ''python_file''], [''libraries'']]"

text \<open>
  A path is untouched when it neither leads to a place the builder writes to (or to a
  value that holds such a place) nor into one.
\<close>

definition untouched :: "string list \<Rightarrow> bool" where
  "untouched p = (\<forall>t\<in>set touched_paths. \<not> prefix p t \<and> \<not> prefix t p)"

definition no_braces :: "string \<Rightarrow> bool" where
  "no_braces s = (CHR ''{'' \<notin> set s \<and> CHR ''}'' \<notin> set s)"

text \<open>The template of the first end-to-end scenario of the specification.\<close>

definition scenario_template :: json where
  "scenario_template =
     JDict [(''new_cluster'',
               JDict [(''spark_conf'', JDict [(''spark.sql.warehouse.dir'', JStr ''/mnt/{dtap}'')])]),
            (''spark_python_task'', JDict []),
            (''libraries'', JList [])]"

definition with_file :: "string \<Rightarrow> json \<Rightarrow> world \<Rightarrow> world" where
  "with_file fn j w = w\<lparr>files := (\<lambda>f. if f = fn then Some j else files w f)\<rparr>"

text \<open>The config that a successful run of the builder returns, written out.\<close>

definition built ::
  "(string \<times> json) list \<Rightarrow> (string \<times> json) list \<Rightarrow> (string \<times> json) list \<Rightarrow> string \<Rightarrow>
   (string \<times> json) list \<Rightarrow> json list \<Rightarrow> string \<Rightarrow> string \<Rightarrow> string \<Rightarrow> json" where
  "built d nc sc s' spt libs n egg py =
     JDict (AList.update ''libraries'' (JList (libs @ [JDict [(''egg'', JStr egg)]]))
       (AList.update ''spark_python_task'' (JDict (AList.update ''python_file'' (JStr py) spt))
         (AList.update ''name'' (JStr n)
           (AList.update ''new_cluster''
              (JDict (AList.update ''spark_conf''
                 (JDict (AList.update ''spark.sql.warehouse.dir'' (JStr s') sc)) nc)) d))))"

text \<open>A template whose warehouse directory holds no placeholder.\<close>

definition fixed_template :: json where
  "fixed_template =
     JDict [(''new_cluster'',
               JDict [(''spark_conf'', JDict [(''spark.sql.warehouse.dir'', JStr ''/mnt/fixed'')])]),
            (''spark_python_task'', JDict []),
            (''libraries'', JList [])]"

text \<open>A template with a schedule, and a world in which a deployment can run.\<close>

definition scheduled_template :: json where
  "scheduled_template =
     JDict [(''new_cluster'',
               JDict [(''spark_conf'', JDict [(''spark.sql.warehouse.dir'', JStr ''/mnt/{dtap}'')])]),
            (''spark_python_task'', JDict []),
            (''libraries'', JList []),
            (''schedule'', JDict [(''quartz_cron_expression'', JStr ''0 0 * * * ?'')])]"

definition build_world :: "git_tag list \<Rightarrow> string \<Rightarrow> json \<Rightarrow> world" where
  "build_world tags branch template =
     \<lparr>environ = (\<lambda>k. if k = ''BUILD_SOURCEBRANCHNAME'' then Some branch
                      else if k = ''BUILD_DEFINITIONNAME'' then Some ''app''
                      else if k = ''AZURE_DATABRICKS_TOKEN_PRD'' then Some ''token-prd''
                      else if k = ''AZURE_DATABRICKS_HOST_PRD'' then Some ''host-prd''
                      else if k = ''AZURE_DATABRICKS_TOKEN_DEV'' then Some ''token-dev''
                      else if k = ''AZURE_DATABRICKS_HOST_DEV'' then Some ''host-dev''
                      else None),
      repo_tags = tags, head_commit = ''c1'',
      files = (\<lambda>f. if f = ''/root/job_config.json'' then Some template else None),
      jobs = [\<lparr>name = ''app-SNAPSHOT'', job_id = 7\<rparr>], next_job_id = 100,
      runs_page = (\<lambda>i. if i = 7 then Some [70, 71] else None),
      refused = (\<lambda>c. False), calls = [], stdout = []\<rparr>"

text \<open>
  A template with fields beside the four places the builder writes to, at every depth,
  and with two libraries already listed.
\<close>

definition rich_template :: json where
  "rich_template =
     JDict [(''name'', JStr ''placeholder''),
            (''new_cluster'',
               JDict [(''spark_version'', JStr ''5.3.x-scala2.11''),
                      (''spark_conf'',
                         JDict [(''spark.sql.warehouse.dir'', JStr ''/mnt/{dtap}/warehouse''),
                                (''spark.executor.memory'', JStr ''4g'')]),
                      (''num_workers'', JInt 2)]),
            (''max_retries'', JInt 3),
            (''spark_python_task'',
               JDict [(''python_file'', JStr ''old.py''),
                      (''parameters'', JList [JStr ''--verbose''])]),
            (''libraries'',
               JList [JDict [(''jar'', JStr ''dbfs:/lib/a.jar'')],
                      JDict [(''pypi'', JDict [(''package'', JStr ''simplejson'')])]]),
            (''email_notifications'', JDict [(''on_failure'', JList [JStr ''ops@example.org''])])]"

section \<open>Names and versions as the specification words them\<close>

definition digits :: "string \<Rightarrow> bool" where
  "digits s = (s \<noteq> [] \<and> (\<forall>c\<in>set s. is_digit c))"

definition is_version :: "string \<Rightarrow> bool" where
  "is_version V =
     (V = ''SNAPSHOT'' \<or>
      (\<exists>a b c. digits a \<and> digits b \<and> digits c \<and> V = a @ ''.'' @ b @ ''.'' @ c))"

definition versioned :: "string \<Rightarrow> string \<Rightarrow> bool" where
  "versioned A n =
     (\<exists>V. is_version V \<and> (n = A @ ''-'' @ V \<or> n = A @ ''-'' @ V @ [CHR 0x0A]))"

definition plain_name :: "string \<Rightarrow> bool" where
  "plain_name A = (\<forall>c\<in>set A. \<not> is_special c)"

text \<open>A name in which the dot is the only pattern character.\<close>

definition literal_name :: "string \<Rightarrow> bool" where
  "literal_name A = (\<forall>c\<in>set A. \<not> is_special c \<or> c = CHR ''.'')"

definition items_of :: "string \<Rightarrow> item list" where
  "items_of A = map (\<lambda>c. (atom_of c, Once)) A"

definition lits :: "string \<Rightarrow> item list" where
  "lits A = map (\<lambda>l. (Lit l, Once)) A"

section \<open>Properties of the job matcher\<close>

lemma rep_char_special: "is_rep_char c \<Longrightarrow> is_special c"
  by (auto simp: is_rep_char_def is_special_def)

lemma parse_items_plain: "plain_name A \<Longrightarrow> parse_items A = Inr (lits A)"
proof (induction A rule: parse_items.induct)
  case 1
  then show ?case by (simp add: lits_def)
next
  case (2 c)
  then show ?case by (auto simp: lits_def plain_name_def atom_of_def is_special_def)
next
  case (3 c q cs)
  have nq: "\<not> is_rep_char q" using 3(3) rep_char_special[of q] by (auto simp: plain_name_def)
  have nc: "\<not> is_special c" using 3(3) by (simp add: plain_name_def)
  have pl: "plain_name (q # cs)" using 3(3) by (simp add: plain_name_def)
  have dot: "c \<noteq> CHR ''.''" using nc by (auto simp: is_special_def)
  have "parse_items (q # cs) = Inr (lits (q # cs))" using 3(2)[OF _ nq pl] nc by simp
  then show ?case using nq nc dot by (simp add: lits_def atom_of_def)
qed

lemma runs_lits: "runs (lits A) s = (if prefix A s then [drop (length A) s] else [])"
proof (induction A arbitrary: s)
  case Nil
  then show ?case by (simp add: lits_def)
next
  case (Cons a A)
  then show ?case by (cases s) (auto simp: lits_def)
qed

lemma runs_Star:
  "r \<in> set (runs ((a, Star) # ps) s) \<longleftrightarrow>
     (\<exists>u w. s = u @ w \<and> (\<forall>c\<in>set u. atom_ok a c) \<and> r \<in> set (runs ps w))"
proof (induction s)
  case Nil
  then show ?case by simp
next
  case (Cons c cs)
  show ?case (is "?L = ?R")
  proof
    assume ?L
    then consider "atom_ok a c" "r \<in> set (runs ((a, Star) # ps) cs)" | "r \<in> set (runs ps (c # cs))"
      by (auto split: if_splits)
    then show ?R
    proof cases
      case 1
      then obtain u w where "cs = u @ w" "\<forall>c\<in>set u. atom_ok a c" "r \<in> set (runs ps w)"
        using Cons.IH by blast
      then have "c # cs = (c # u) @ w \<and> (\<forall>x\<in>set (c # u). atom_ok a x) \<and> r \<in> set (runs ps w)"
        using 1 by simp
      then show ?thesis by blast
    next
      case 2
      then have "c # cs = [] @ (c # cs) \<and> (\<forall>x\<in>set []. atom_ok a x) \<and> r \<in> set (runs ps (c # cs))"
        by simp
      then show ?thesis by blast
    qed
  next
    assume ?R
    then obtain u w where uw: "c # cs = u @ w" "\<forall>c\<in>set u. atom_ok a c" "r \<in> set (runs ps w)"
      by blast
    show ?L
    proof (cases u)
      case Nil
      then have "r \<in> set (runs ps (c # cs))" using uw by simp
      then show ?thesis by simp
    next
      case (Cons x u')
      then have "x = c" "cs = u' @ w" "atom_ok a c" "\<forall>c\<in>set u'. atom_ok a c" using uw by auto
      then have "r \<in> set (runs ((a, Star) # ps) cs)" using Cons.IH uw(3) by blast
      then show ?thesis using \<open>atom_ok a c\<close> by simp
    qed
  qed
qed

lemma runs_Plus:
  "r \<in> set (runs ((a, Plus) # ps) s) \<longleftrightarrow>
     (\<exists>u w. s = u @ w \<and> u \<noteq> [] \<and> (\<forall>c\<in>set u. atom_ok a c) \<and> r \<in> set (runs ps w))"
proof (cases s)
  case Nil
  then show ?thesis by simp
next
  case (Cons c cs)
  show ?thesis (is "?L = ?R")
  proof
    assume ?L
    then have ok: "atom_ok a c" and "r \<in> set (runs ((a, Star) # ps) cs)"
      using Cons by (auto split: if_splits)
    then obtain u w where "cs = u @ w" "\<forall>c\<in>set u. atom_ok a c" "r \<in> set (runs ps w)"
      using runs_Star by blast
    then have "s = (c # u) @ w \<and> c # u \<noteq> [] \<and> (\<forall>x\<in>set (c # u). atom_ok a x) \<and> r \<in> set (runs ps w)"
      using ok Cons by simp
    then show ?R by blast
  next
    assume ?R
    then obtain u w where uw: "s = u @ w" "u \<noteq> []" "\<forall>c\<in>set u. atom_ok a c" "r \<in> set (runs ps w)"
      by blast
    then obtain x u' where u: "u = x # u'" by (cases u) auto
    then have "x = c" "cs = u' @ w" "atom_ok a c" "\<forall>c\<in>set u'. atom_ok a c" using uw Cons by auto
    then have "r \<in> set (runs ((a, Star) # ps) cs)" using runs_Star uw(4) by blast
    then show ?L using \<open>atom_ok a c\<close> Cons by simp
  qed
qed

lemma runs_PlusI:
  "u \<noteq> [] \<Longrightarrow> \<forall>c\<in>set u. atom_ok a c \<Longrightarrow> r \<in> set (runs ps w) \<Longrightarrow>
     r \<in> set (runs ((a, Plus) # ps) (u @ w))"
  unfolding runs_Plus by blast

lemma runs_Once:
  "r \<in> set (runs ((a, Once) # ps) s) \<longleftrightarrow> (\<exists>c w. s = c # w \<and> atom_ok a c \<and> r \<in> set (runs ps w))"
  by (cases s) auto

lemma runs_version:
  "r \<in> set (runs version_items v) \<longleftrightarrow>
     (\<exists>a b c. digits a \<and> digits b \<and> digits c \<and> v = a @ ''.'' @ b @ ''.'' @ c @ r)"
  (is "?L = ?R")
proof
  assume ?L
  then show ?R
    unfolding version_items_def runs_Plus runs_Once digits_def by auto
next
  assume ?R
  then obtain a b c where abc: "digits a" "digits b" "digits c"
    and v: "v = a @ ''.'' @ b @ ''.'' @ c @ r" by blast
  have 1: "r \<in> set (runs [(Digit, Plus)] (c @ r))"
    using runs_PlusI[of c Digit r "[]" r] abc(3) by (simp add: digits_def)
  have 2: "r \<in> set (runs [(Lit (CHR ''.''), Once), (Digit, Plus)] (''.'' @ c @ r))"
    using 1 by simp
  have 3: "r \<in> set (runs [(Digit, Plus), (Lit (CHR ''.''), Once), (Digit, Plus)]
                       (b @ ''.'' @ c @ r))"
    using runs_PlusI[OF _ _ 2, of b Digit] abc(2) by (simp add: digits_def)
  have 4: "r \<in> set (runs [(Lit (CHR ''.''), Once), (Digit, Plus), (Lit (CHR ''.''), Once),
                        (Digit, Plus)] (''.'' @ b @ ''.'' @ c @ r))"
    using 3 by simp
  show ?L
    unfolding version_items_def v
    using runs_PlusI[OF _ _ 4, of a Digit] abc(1) by (simp add: digits_def)
qed

lemma runs_snapshot:
  "e \<in> set (runs (lits ''SNAPSHOT'') v) \<longleftrightarrow> v = ''SNAPSHOT'' @ e"
proof -
  have "e \<in> set (runs (lits ''SNAPSHOT'') v) \<longleftrightarrow>
          prefix ''SNAPSHOT'' v \<and> e = drop (length ''SNAPSHOT'') v"
    unfolding runs_lits by auto
  also have "\<dots> \<longleftrightarrow> v = ''SNAPSHOT'' @ e"
    unfolding prefix_def by auto
  finally show ?thesis .
qed

lemma tail_ok_iff:
  "tail_ok r \<longleftrightarrow> (\<exists>V. is_version V \<and> (r = ''-'' @ V \<or> r = ''-'' @ V @ [CHR 0x0A]))"
  (is "?L = ?R")
proof
  assume L: ?L
  then obtain v where r: "r = CHR ''-'' # v" by (auto simp: tail_ok_def split: list.splits)
  from L r consider "list_ex at_end (runs (lits ''SNAPSHOT'') v)"
    | "list_ex at_end (runs version_items v)"
    by (auto simp: tail_ok_def lits_def)
  then show ?R
  proof cases
    case 1
    then obtain z where "z \<in> set (runs (lits ''SNAPSHOT'') v)" and e: "at_end z"
      unfolding list_ex_iff by blast
    then have z: "v = ''SNAPSHOT'' @ z" unfolding runs_snapshot by simp
    from e have "z = [] \<or> z = [CHR 0x0A]" by (simp add: at_end_def)
    moreover have "is_version ''SNAPSHOT''" by (simp add: is_version_def)
    ultimately show ?thesis using r z by auto
  next
    case 2
    then obtain e where e: "e \<in> set (runs version_items v)" "at_end e"
      by (auto simp: list_ex_iff)
    then obtain a b c where abc: "digits a" "digits b" "digits c"
      "v = a @ ''.'' @ b @ ''.'' @ c @ e" using runs_version by blast
    then have iv: "is_version (a @ ''.'' @ b @ ''.'' @ c)" unfolding is_version_def by blast
    from e(2) have "e = [] \<or> e = [CHR 0x0A]" by (simp add: at_end_def)
    then have "r = ''-'' @ (a @ ''.'' @ b @ ''.'' @ c) \<or>
               r = ''-'' @ (a @ ''.'' @ b @ ''.'' @ c) @ [CHR 0x0A]"
      using r abc(4) by auto
    then show ?thesis using iv by blast
  qed
next
  assume ?R
  then obtain V e where V: "is_version V" and e: "at_end e" and r: "r = CHR ''-'' # V @ e"
    by (auto simp: at_end_def)
  show ?L
  proof (cases "V = ''SNAPSHOT''")
    case True
    then have "e \<in> set (runs (lits ''SNAPSHOT'') (V @ e))" unfolding runs_snapshot by simp
    then have "list_ex at_end (runs (lits ''SNAPSHOT'') (V @ e))"
      using e unfolding list_ex_iff by blast
    then show ?thesis using r by (simp add: tail_ok_def lits_def)
  next
    case False
    then obtain a b c where "digits a" "digits b" "digits c" "V = a @ ''.'' @ b @ ''.'' @ c"
      using V by (auto simp: is_version_def)
    then have "e \<in> set (runs version_items (V @ e))" using runs_version by auto
    then have "list_ex at_end (runs version_items (V @ e))" using e by (auto simp: list_ex_iff)
    then show ?thesis using r by (simp add: tail_ok_def)
  qed
qed

lemma has_match_plain:
  assumes "plain_name A"
  shows "has_match (lits A) A n \<longleftrightarrow> versioned A n"
proof (cases "prefix A n")
  case False
  then have "\<not> has_match (lits A) A n"
    by (simp add: has_match_def re_search_def runs_lits)
  moreover have "\<not> versioned A n"
    using False unfolding versioned_def prefix_def by auto
  ultimately show ?thesis by simp
next
  case True
  then obtain r where n: "n = A @ r" unfolding prefix_def by blast
  have "has_match (lits A) A n \<longleftrightarrow> tail_ok r"
    unfolding n by (simp add: has_match_def re_search_def runs_lits)
  also have "\<dots> \<longleftrightarrow> versioned A n"
    unfolding versioned_def tail_ok_iff n by simp
  finally show ?thesis .
qed

lemma is_digit_not_dash: "is_digit c \<Longrightarrow> c \<noteq> CHR ''-''"
  by (auto simp: is_digit_def)

lemma digits_no_dash: "digits a \<Longrightarrow> CHR ''-'' \<notin> set a"
  using is_digit_not_dash unfolding digits_def by blast

lemma version_no_dash:
  assumes "is_version V"
  shows "CHR ''-'' \<notin> set V"
proof (cases "V = ''SNAPSHOT''")
  case True
  then show ?thesis by simp
next
  case False
  then obtain a b c where "digits a" "digits b" "digits c" "V = a @ ''.'' @ b @ ''.'' @ c"
    using assms unfolding is_version_def by blast
  then show ?thesis using digits_no_dash by simp
qed

lemma not_versioned_suffix:
  assumes "is_version V" "X \<noteq> []"
  shows "\<not> versioned A (A @ X @ ''-'' @ V)"
proof
  assume "versioned A (A @ X @ ''-'' @ V)"
  then obtain V' where V': "is_version V'"
    and eq: "A @ X @ ''-'' @ V = A @ ''-'' @ V' \<or> A @ X @ ''-'' @ V = A @ ''-'' @ V' @ [CHR 0x0A]"
    unfolding versioned_def by blast
  from assms(2) obtain x X' where X: "X = x # X'" by (cases X) simp_all
  have m: "CHR ''-'' \<in> set (X' @ ''-'' @ V)" by simp
  from eq show False
  proof
    assume "A @ X @ ''-'' @ V = A @ ''-'' @ V'"
    then have "X' @ ''-'' @ V = V'" unfolding X by simp
    then show False using m version_no_dash[OF V'] by simp
  next
    assume "A @ X @ ''-'' @ V = A @ ''-'' @ V' @ [CHR 0x0A]"
    then have "X' @ ''-'' @ V = V' @ [CHR 0x0A]" unfolding X by simp
    then have "CHR ''-'' \<in> set (V' @ [CHR 0x0A])" using m by simp
    then show False using version_no_dash[OF V'] by simp
  qed
qed



lemma plain_literal: "plain_name A \<Longrightarrow> literal_name A"
  by (simp add: plain_name_def literal_name_def)

lemma parse_items_literal: "literal_name A \<Longrightarrow> parse_items A = Inr (items_of A)"
proof (induction A rule: parse_items.induct)
  case 1
  then show ?case by (simp add: items_of_def)
next
  case (2 c)
  then show ?case by (auto simp: items_of_def literal_name_def)
next
  case (3 c q cs)
  have q: "\<not> is_special q \<or> q = CHR ''.''" using 3(3) by (simp add: literal_name_def)
  have nq: "\<not> is_rep_char q"
    using q rep_char_special[of q] by (auto simp: is_rep_char_def)
  have nc: "\<not> (is_special c \<and> c \<noteq> CHR ''.'')" using 3(3) by (auto simp: literal_name_def)
  have pl: "literal_name (q # cs)" using 3(3) by (simp add: literal_name_def)
  have "parse_items (q # cs) = Inr (items_of (q # cs))" using 3(2)[OF nc nq pl] .
  then show ?case using nq nc by (simp add: items_of_def)
qed

lemma runs_items_of_self: "runs (items_of A) (A @ r) = [r]"
proof (induction A)
  case Nil
  then show ?case by (simp add: items_of_def)
next
  case (Cons a A)
  have "atom_ok (atom_of a) a" by (simp add: atom_of_def)
  then show ?case using Cons by (simp add: items_of_def)
qed

lemma runs_items_of_rest: "r \<in> set (runs (items_of A) s) \<Longrightarrow> r = drop (length A) s \<and> length A \<le> length s"
proof (induction A arbitrary: s)
  case Nil
  then show ?case by (simp add: items_of_def)
next
  case (Cons a A)
  then show ?case by (cases s) (auto simp: items_of_def split: if_splits)
qed

lemma has_match_literal: "has_match (items_of A) A n \<longleftrightarrow> versioned A n"
proof (cases "prefix A n")
  case True
  then obtain r where n: "n = A @ r" unfolding prefix_def by blast
  have "has_match (items_of A) A n \<longleftrightarrow> tail_ok r"
    unfolding n by (simp add: has_match_def re_search_def runs_items_of_self)
  also have "\<dots> \<longleftrightarrow> versioned A n"
    unfolding versioned_def tail_ok_iff n by simp
  finally show ?thesis .
next
  case False
  have "\<not> has_match (items_of A) A n"
  proof
    assume h: "has_match (items_of A) A n"
    then obtain r rs where f: "filter tail_ok (runs (items_of A) n) = r # rs"
      and t: "take (length n - length r) n = A"
      by (auto simp: has_match_def re_search_def split: list.splits)
    have "prefix (take (length n - length r) n) n" by (rule take_is_prefix)
    then show False using False t by simp
  qed
  moreover have "\<not> versioned A n"
    using False unfolding versioned_def prefix_def by auto
  ultimately show ?thesis by simp
qed

lemma find_cong_set: "(\<And>x. x \<in> set xs \<Longrightarrow> P x = Q x) \<Longrightarrow> find P xs = find Q xs"
  by (induction xs) auto

lemma application_job_id_literal:
  assumes "literal_name A"
  shows "application_job_id A js =
           Inr (map_option job_id (find (\<lambda>j. versioned A (name j)) js))"
  using assms
  by (simp add: application_job_id_def re_compile_def parse_items_literal has_match_literal)

lemma application_job_id_versioned:
  assumes "plain_name A"
  shows "application_job_id A js =
           Inr (map_option job_id (find (\<lambda>j. versioned A (name j)) js))"
  by (rule application_job_id_literal[OF plain_literal[OF assms]])

text \<open>
  What the matcher does for an application name \<open>A\<close> in which the dot is the only pattern
  character (none of \<open>^ $ | ? * + ( ) [ ] { }\<close> and no backslash): it returns the id of
  the first job of the list whose name is \<open>A-V'\<close>, or \<open>A-V'\<close> followed by one line feed,
  for a version \<open>V'\<close>; so it returns an id whenever a job named \<open>A-V\<close> is in the list,
  and the job it picks is never one named \<open>AX-V\<close> with a nonempty \<open>X\<close>.
\<close>

theorem application_job_id_literal_name:
  assumes "literal_name A" and "is_version V"
  shows "application_job_id A js =
           Inr (map_option job_id (find (\<lambda>j. versioned A (name j)) js)) \<and>
         ((\<exists>j\<in>set js. name j = A @ ''-'' @ V) \<longrightarrow>
            (\<exists>i. application_job_id A js = Inr (Some i))) \<and>
         (\<forall>X (j::JobConfig). X \<noteq> [] \<and> name j = A @ X @ ''-'' @ V \<longrightarrow>
            find (\<lambda>j. versioned A (name j)) js \<noteq> Some j)"
proof (intro conjI impI allI)
  show 1: "application_job_id A js =
           Inr (map_option job_id (find (\<lambda>j. versioned A (name j)) js))"
    by (rule application_job_id_literal[OF assms(1)])
  {
    assume "\<exists>j\<in>set js. name j = A @ ''-'' @ V"
    then obtain j where "j \<in> set js" "versioned A (name j)"
      using assms(2) unfolding versioned_def by blast
    then have "find (\<lambda>j. versioned A (name j)) js \<noteq> None"
      unfolding find_None_iff by blast
    then show "\<exists>i. application_job_id A js = Inr (Some i)"
      unfolding 1 by auto
  }
  {
    fix X and j :: JobConfig
    assume a: "X \<noteq> [] \<and> name j = A @ X @ ''-'' @ V"
    then have "\<not> versioned A (name j)"
      using not_versioned_suffix[OF assms(2), of X A] by simp
    then show "find (\<lambda>j. versioned A (name j)) js \<noteq> Some j"
      unfolding find_Some_iff by blast
  }
qed

lemma plain_app: "plain_name ''app''"
  by (simp add: plain_name_def is_special_def)

lemma digits_one: "digits ''1''" and digits_zero: "digits ''0''"
  by (simp_all add: digits_def is_digit_def)

lemma version_100: "is_version ''1.0.0''"
  unfolding is_version_def using digits_one digits_zero
  by (intro disjI2 exI[of _ "''1''"] exI[of _ "''0''"]) simp

lemma literal_my_app: "literal_name ''my.app''"
  by (simp add: literal_name_def is_special_def)

theorem application_job_id_literal_name_witness:
  "literal_name ''my.app'' \<and> is_version ''1.0.0'' \<and>
   application_job_id ''my.app''
     [\<lparr>name = ''my.app2-1.0.0'', job_id = 5\<rparr>, \<lparr>name = ''my.app-1.0.0'', job_id = 7\<rparr>]
     = Inr (Some 7) \<and>
   (\<exists>i. application_job_id ''my.app''
     [\<lparr>name = ''my.app2-1.0.0'', job_id = 5\<rparr>, \<lparr>name = ''my.app-1.0.0'', job_id = 7\<rparr>]
     = Inr (Some i))"
proof -
  have e: "application_job_id ''my.app''
     [\<lparr>name = ''my.app2-1.0.0'', job_id = 5\<rparr>, \<lparr>name = ''my.app-1.0.0'', job_id = 7\<rparr>]
     = Inr (Some 7)"
    by code_simp
  have p: "\<exists>j\<in>set [\<lparr>name = ''my.app2-1.0.0'', job_id = 5\<rparr>, \<lparr>name = ''my.app-1.0.0'', job_id = 7\<rparr>].
             name j = ''my.app'' @ ''-'' @ ''1.0.0''"
    by simp
  have "\<exists>i. application_job_id ''my.app''
     [\<lparr>name = ''my.app2-1.0.0'', job_id = 5\<rparr>, \<lparr>name = ''my.app-1.0.0'', job_id = 7\<rparr>]
     = Inr (Some i)"
    using application_job_id_literal_name[OF literal_my_app version_100,
        of "[\<lparr>name = ''my.app2-1.0.0'', job_id = 5\<rparr>, \<lparr>name = ''my.app-1.0.0'', job_id = 7\<rparr>]"] p
    by blast
  then show ?thesis using e literal_my_app version_100 by simp
qed

text \<open>
  Claim C1.  The code does not do what the claim says for an application name that
  holds a repetition character.  The name is pasted into the pattern unescaped, so the
  pattern built from \<open>a+b\<close> does not match the job named \<open>a+b-SNAPSHOT\<close>, the name
  that \<open>deploy_application\<close> gives to the job of this application: the matcher returns
  no id, and \<open>__remove_job\<close> sends the list-jobs request only and leaves the job in
  the list.
\<close>

theorem application_job_id_unescaped_name:
  "is_version ''SNAPSHOT'' \<and>
   name \<lparr>name = ''a+b-SNAPSHOT'', job_id = 7\<rparr> = ''a+b'' @ ''-'' @ ''SNAPSHOT'' \<and>
   application_job_id ''a+b'' [\<lparr>name = ''a+b-SNAPSHOT'', job_id = 7\<rparr>] = Inr None \<and>
   fst (remove_job ''a+b'' True (service [\<lparr>name = ''a+b-SNAPSHOT'', job_id = 7\<rparr>])) = Inr () \<and>
   calls (snd (remove_job ''a+b'' True (service [\<lparr>name = ''a+b-SNAPSHOT'', job_id = 7\<rparr>])))
     = [ListJobs] \<and>
   jobs (snd (remove_job ''a+b'' True (service [\<lparr>name = ''a+b-SNAPSHOT'', job_id = 7\<rparr>])))
     = [\<lparr>name = ''a+b-SNAPSHOT'', job_id = 7\<rparr>]"
proof -
  have 1: "application_job_id ''a+b'' [\<lparr>name = ''a+b-SNAPSHOT'', job_id = 7\<rparr>] = Inr None"
    by code_simp
  have 2: "fst (remove_job ''a+b'' True (service [\<lparr>name = ''a+b-SNAPSHOT'', job_id = 7\<rparr>]))
             = Inr ()"
    by code_simp
  have 3: "calls (snd (remove_job ''a+b'' True (service [\<lparr>name = ''a+b-SNAPSHOT'', job_id = 7\<rparr>])))
     = [ListJobs]"
    by code_simp
  have 4: "jobs (snd (remove_job ''a+b'' True (service [\<lparr>name = ''a+b-SNAPSHOT'', job_id = 7\<rparr>])))
     = [\<lparr>name = ''a+b-SNAPSHOT'', job_id = 7\<rparr>]"
    by code_simp
  show ?thesis using 1 2 3 4 by (simp add: is_version_def)
qed

text \<open>A name that ends in a line feed after the version is matched as well.\<close>

lemma has_match_trailing_newline:
  "application_job_id ''app'' [\<lparr>name = ''app-SNAPSHOT'' @ [CHR 0x0A], job_id = 3\<rparr>] = Inr (Some 3)"
  by code_simp

section \<open>Properties of the remover and the submitter\<close>

lemma request_simps:
  "fst (request c w) = (if refused w c then Inl ApiError else Inr ())"
  "snd (request c w) = w\<lparr>calls := calls w @ [c]\<rparr>"
  by (simp_all add: request_def)

lemma request_cases:
  obtains "refused w c" "request c w = (Inl ApiError, w\<lparr>calls := calls w @ [c]\<rparr>)"
  | "\<not> refused w c" "request c w = (Inr (), w\<lparr>calls := calls w @ [c]\<rparr>)"
  by (cases "refused w c") (simp_all add: request_def)

lemma submit_job_result:
  "submit_job cfg s w =
     (if refused w (CreateJob cfg) then (Inl ApiError, w\<lparr>calls := calls w @ [CreateJob cfg]\<rparr>)
      else
        (if s \<and> refused w (RunNow (next_job_id w) None None None None) then Inl ApiError
         else Inr (),
         w\<lparr>calls := calls w @ [CreateJob cfg] @
                      (if s then [RunNow (next_job_id w) None None None None] else []),
           jobs := jobs w @ [\<lparr>name = config_name cfg, job_id = next_job_id w\<rparr>],
           next_job_id := next_job_id w + 1\<rparr>))"
  by (simp add: submit_job_def create_job_def run_now_def request_def bind_io_def return_io_def)

text \<open>
  Claim C7.  \<open>__submit_job\<close> sends exactly one create-job request.  When that request is
  answered and the job is streaming, it then sends exactly one run-now request, on the id
  the service has just given to the new job and with no parameter overrides; when the job
  is not streaming it sends no run-now request.
\<close>

theorem submit_job_calls:
  "calls (snd (submit_job cfg s w)) =
     calls w @ [CreateJob cfg] @
       (if s \<and> \<not> refused w (CreateJob cfg)
        then [RunNow (next_job_id w) None None None None] else []) \<and>
   (\<not> refused w (CreateJob cfg) \<longrightarrow>
      jobs (snd (submit_job cfg s w)) =
        jobs w @ [\<lparr>name = config_name cfg, job_id = next_job_id w\<rparr>])"
  by (simp add: submit_job_result)

lemma cancel_all_result:
  "fst (cancel_all rs w) = Inr () \<Longrightarrow>
     snd (cancel_all rs w) = w\<lparr>calls := calls w @ map CancelRun rs\<rparr>"
proof (induction rs arbitrary: w)
  case Nil
  then show ?case by (simp add: return_io_def)
next
  case (Cons r rs)
  show ?case
  proof (cases rule: request_cases[of w "CancelRun r"])
    case 1
    then show ?thesis using Cons.prems by (simp add: bind_io_def cancel_run_def)
  next
    case 2
    let ?w = "w\<lparr>calls := calls w @ [CancelRun r]\<rparr>"
    have "fst (cancel_all rs ?w) = Inr ()"
      using Cons.prems 2 by (simp add: bind_io_def cancel_run_def)
    then have "snd (cancel_all rs ?w) = ?w\<lparr>calls := calls ?w @ map CancelRun rs\<rparr>"
      by (rule Cons.IH)
    then show ?thesis using 2 by (simp add: bind_io_def cancel_run_def)
  qed
qed

lemma kill_it_with_fire_result:
  assumes "fst (kill_it_with_fire i w) = Inr ()"
  shows "snd (kill_it_with_fire i w) =
           w\<lparr>calls := calls w @ ListRuns i (Some True) None None None #
                        map CancelRun (first_page w i)\<rparr>"
proof (cases rule: request_cases[of w "ListRuns i (Some True) None None None"])
  case 1
  then show ?thesis
    using assms by (simp add: kill_it_with_fire_def list_runs_def bind_io_def)
next
  case 2
  let ?w = "w\<lparr>calls := calls w @ [ListRuns i (Some True) None None None]\<rparr>"
  show ?thesis
  proof (cases "runs_page w i")
    case None
    then show ?thesis
      using 2 by (simp add: kill_it_with_fire_def list_runs_def bind_io_def return_io_def
          first_page_def)
  next
    case (Some rs)
    then have k: "kill_it_with_fire i w = cancel_all rs ?w"
      using 2 by (simp add: kill_it_with_fire_def list_runs_def bind_io_def)
    then have "fst (cancel_all rs ?w) = Inr ()" using assms by simp
    then have "snd (cancel_all rs ?w) = ?w\<lparr>calls := calls ?w @ map CancelRun rs\<rparr>"
      by (rule cancel_all_result)
    then show ?thesis using k Some by (simp add: first_page_def)
  qed
qed

lemma delete_job_result:
  "delete_job i w =
     (if refused w (DeleteJob i) then (Inl ApiError, w\<lparr>calls := calls w @ [DeleteJob i]\<rparr>)
      else (Inr (), w\<lparr>calls := calls w @ [DeleteJob i],
                       jobs := filter (\<lambda>j. job_id j \<noteq> i) (jobs w)\<rparr>))"
  by (simp add: delete_job_def request_def bind_io_def)

lemma remove_job_unfold:
  assumes "\<not> refused w ListJobs"
  shows "remove_job A s w =
     bind_io (lift_io (application_job_id A (jobs w)))
       (\<lambda>job_id'.
          if truthy job_id' then
            bind_io (if s then kill_it_with_fire (the job_id') else return_io ())
              (\<lambda>_. delete_job (the job_id'))
          else return_io ()) (w\<lparr>calls := calls w @ [ListJobs]\<rparr>)"
  using assms by (simp add: remove_job_def list_jobs_def request_def bind_io_def)

lemma remove_job_refused:
  assumes "refused w ListJobs"
  shows "remove_job A s w = (Inl ApiError, w\<lparr>calls := calls w @ [ListJobs]\<rparr>)"
  using assms by (simp add: remove_job_def list_jobs_def request_def bind_io_def)

lemma remove_job_found:
  assumes "application_job_id A (jobs w) = Inr (Some i)" and "i \<noteq> 0"
    and "fst (remove_job A s w) = Inr ()"
  shows "snd (remove_job A s w) =
           w\<lparr>calls := calls w @ [ListJobs] @
                (if s then ListRuns i (Some True) None None None #
                           map CancelRun (first_page w i) else []) @ [DeleteJob i],
             jobs := filter (\<lambda>j. job_id j \<noteq> i) (jobs w)\<rparr>"
proof -
  have nr: "\<not> refused w ListJobs"
    using assms(3) remove_job_refused[of w A s] by auto
  let ?w = "w\<lparr>calls := calls w @ [ListJobs]\<rparr>"
  have r: "remove_job A s w =
      bind_io (if s then kill_it_with_fire i else return_io ()) (\<lambda>_. delete_job i) ?w"
    using assms(1,2) by (simp add: remove_job_unfold[OF nr] lift_io_def bind_io_def truthy_def)
  show ?thesis
  proof (cases s)
    case False
    then have "remove_job A s w = delete_job i ?w"
      using r by (simp add: bind_io_def return_io_def)
    then show ?thesis
      using assms(3) False by (simp add: delete_job_result split: if_splits)
  next
    case True
    then have r': "remove_job A s w = bind_io (kill_it_with_fire i) (\<lambda>_. delete_job i) ?w"
      using r by simp
    have k: "fst (kill_it_with_fire i ?w) = Inr ()"
      using assms(3) unfolding r' bind_io_def
      by (cases "kill_it_with_fire i ?w") (auto split: sum.splits)
    let ?w1 = "?w\<lparr>calls := calls ?w @ ListRuns i (Some True) None None None #
                        map CancelRun (first_page ?w i)\<rparr>"
    have "snd (kill_it_with_fire i ?w) = ?w1" by (rule kill_it_with_fire_result[OF k])
    then have kk: "kill_it_with_fire i ?w = (Inr (), ?w1)"
      using k by (metis prod.collapse)
    have "remove_job A s w = delete_job i ?w1"
      unfolding r' bind_io_def kk by simp
    then show ?thesis
      using assms(3) True by (simp add: delete_job_result first_page_def split: if_splits)
  qed
qed

lemma remove_job_not_found:
  assumes "application_job_id A (jobs w) = Inr r" and "\<not> truthy r"
  shows "remove_job A s w =
           (if refused w ListJobs then Inl ApiError else Inr (),
            w\<lparr>calls := calls w @ [ListJobs]\<rparr>)"
proof (cases "refused w ListJobs")
  case True
  then show ?thesis by (simp add: remove_job_refused)
next
  case False
  then show ?thesis
    using assms by (simp add: remove_job_unfold lift_io_def bind_io_def return_io_def)
qed

text \<open>
  What \<open>__remove_job\<close> sends when the matcher returns a job id other than 0 and the run
  reaches its end: for a streaming job the listing of the active runs of that job, a
  cancel request for every run id of the first page in order, and then the delete-job
  request; for a job that is not streaming the delete-job request and no run-listing or
  cancel request.
\<close>

theorem remove_job_calls:
  assumes "application_job_id A (jobs w) = Inr (Some i)" and "i \<noteq> 0"
    and "fst (remove_job A s w) = Inr ()"
  shows "calls (snd (remove_job A s w)) =
           calls w @ [ListJobs] @
             (if s then ListRuns i (Some True) None None None # map CancelRun (first_page w i)
              else []) @ [DeleteJob i]"
  using remove_job_found[OF assms] by simp

theorem remove_job_calls_witness:
  "application_job_id ''app'' (jobs (service [\<lparr>name = ''app-SNAPSHOT'', job_id = 7\<rparr>]))
     = Inr (Some 7) \<and>
   fst (remove_job ''app'' True (service [\<lparr>name = ''app-SNAPSHOT'', job_id = 7\<rparr>])) = Inr () \<and>
   calls (snd (remove_job ''app'' True (service [\<lparr>name = ''app-SNAPSHOT'', job_id = 7\<rparr>]))) =
     [ListJobs, ListRuns 7 (Some True) None None None, CancelRun 70, CancelRun 71, DeleteJob 7]"
proof -
  let ?w = "service [\<lparr>name = ''app-SNAPSHOT'', job_id = 7\<rparr>]"
  have 1: "application_job_id ''app'' (jobs ?w) = Inr (Some 7)" by code_simp
  have 2: "(7::int) \<noteq> 0" by simp
  have 3: "fst (remove_job ''app'' True ?w) = Inr ()" by code_simp
  have 4: "first_page ?w 7 = [70, 71]" by (simp add: first_page_def service_def)
  have 5: "calls ?w = []" by (simp add: service_def)
  show ?thesis using remove_job_calls[OF 1 2 3] 1 3 4 5 by simp
qed

text \<open>
  Claim C3.  The code does not do what the claim says when the matching job has the
  id 0: the matcher finds the job and the job is streaming, but \<open>if job_id:\<close> is false
  for 0, so no run is listed or cancelled and the job is not deleted.
\<close>

theorem remove_job_skips_id_zero:
  "application_job_id ''app'' (jobs (service [\<lparr>name = ''app-SNAPSHOT'', job_id = 0\<rparr>]))
     = Inr (Some 0) \<and>
   fst (remove_job ''app'' True (service [\<lparr>name = ''app-SNAPSHOT'', job_id = 0\<rparr>])) = Inr () \<and>
   calls (snd (remove_job ''app'' True (service [\<lparr>name = ''app-SNAPSHOT'', job_id = 0\<rparr>])))
     = [ListJobs] \<and>
   jobs (snd (remove_job ''app'' True (service [\<lparr>name = ''app-SNAPSHOT'', job_id = 0\<rparr>])))
     = [\<lparr>name = ''app-SNAPSHOT'', job_id = 0\<rparr>]"
  by code_simp

text \<open>
  Claim C10, amended.  When the first job of the remote list whose name matches (the
  job the matcher selects) has the id 0, \<open>__remove_job\<close> sends the list-jobs request
  and nothing else (no cancel-run, no delete-job) and leaves the jobs as they are:
  exactly what it does when the matcher returns \<open>None\<close>.
\<close>

theorem remove_job_first_match_id_zero:
  assumes "re_compile A = Inr regex"
    and "find (\<lambda>j. has_match regex A (name j)) (jobs w) = Some j"
    and "job_id j = 0"
  shows "remove_job A s w =
           (if refused w ListJobs then Inl ApiError else Inr (),
            w\<lparr>calls := calls w @ [ListJobs]\<rparr>) \<and>
         (\<forall>v. application_job_id A (jobs v) = Inr None \<longrightarrow>
            remove_job A s v =
              (if refused v ListJobs then Inl ApiError else Inr (),
               v\<lparr>calls := calls v @ [ListJobs]\<rparr>))"
proof (intro conjI allI impI)
  have r: "application_job_id A (jobs w) = Inr (Some 0)"
    using assms by (simp add: application_job_id_def)
  show "remove_job A s w =
           (if refused w ListJobs then Inl ApiError else Inr (),
            w\<lparr>calls := calls w @ [ListJobs]\<rparr>)"
    by (rule remove_job_not_found[OF r]) (simp add: truthy_def)
next
  fix v :: world
  assume "application_job_id A (jobs v) = Inr None"
  then show "remove_job A s v =
              (if refused v ListJobs then Inl ApiError else Inr (),
               v\<lparr>calls := calls v @ [ListJobs]\<rparr>)"
    by (rule remove_job_not_found) (simp add: truthy_def)
qed

theorem remove_job_first_match_id_zero_witness:
  "re_compile ''app'' = Inr (lits ''app'') \<and>
   find (\<lambda>j. has_match (lits ''app'') ''app'' (name j))
     (jobs (service [\<lparr>name = ''app2-1.2.3'', job_id = 5\<rparr>, \<lparr>name = ''app-1.2.3'', job_id = 0\<rparr>]))
     = Some \<lparr>name = ''app-1.2.3'', job_id = 0\<rparr> \<and>
   calls (snd (remove_job ''app'' True
     (service [\<lparr>name = ''app2-1.2.3'', job_id = 5\<rparr>, \<lparr>name = ''app-1.2.3'', job_id = 0\<rparr>])))
     = [ListJobs] \<and>
   jobs (snd (remove_job ''app'' True
     (service [\<lparr>name = ''app2-1.2.3'', job_id = 5\<rparr>, \<lparr>name = ''app-1.2.3'', job_id = 0\<rparr>])))
     = [\<lparr>name = ''app2-1.2.3'', job_id = 5\<rparr>, \<lparr>name = ''app-1.2.3'', job_id = 0\<rparr>]"
proof -
  let ?w = "service [\<lparr>name = ''app2-1.2.3'', job_id = 5\<rparr>, \<lparr>name = ''app-1.2.3'', job_id = 0\<rparr>]"
  have 1: "re_compile ''app'' = Inr (lits ''app'')"
    unfolding re_compile_def by (rule parse_items_plain[OF plain_app])
  have 2: "find (\<lambda>j. has_match (lits ''app'') ''app'' (name j)) (jobs ?w)
             = Some \<lparr>name = ''app-1.2.3'', job_id = 0\<rparr>"
    by code_simp
  have 3: "job_id \<lparr>name = ''app-1.2.3'', job_id = 0\<rparr> = 0" by simp
  have 4: "calls ?w = []"
    "jobs ?w = [\<lparr>name = ''app2-1.2.3'', job_id = 5\<rparr>, \<lparr>name = ''app-1.2.3'', job_id = 0\<rparr>]"
    by (simp_all add: service_def)
  show ?thesis using remove_job_first_match_id_zero[OF 1 2 3, of True] 1 2 4 by simp
qed

text \<open>
  Claim C10 as stated fails when a matching job with another id stands before the one
  with the id 0: the list contains the job \<open>app-SNAPSHOT\<close> with id 0, which matches, and
  the runs of job 7 are cancelled and job 7 is deleted.
\<close>

theorem remove_job_first_match_id_zero_counterexample:
  "application_job_id ''app'' [\<lparr>name = ''app-SNAPSHOT'', job_id = 0\<rparr>] = Inr (Some 0) \<and>
   calls (snd (remove_job ''app'' True
     (service [\<lparr>name = ''app-1.0.0'', job_id = 7\<rparr>, \<lparr>name = ''app-SNAPSHOT'', job_id = 0\<rparr>])))
     = [ListJobs, ListRuns 7 (Some True) None None None, CancelRun 70, CancelRun 71,
        DeleteJob 7]"
  by code_simp

theorem submit_job_calls_witness:
  "calls (snd (submit_job (JDict [(''name'', JStr ''app-1.0.0'')]) True (service []))) =
     [CreateJob (JDict [(''name'', JStr ''app-1.0.0'')]), RunNow 100 None None None None] \<and>
   calls (snd (submit_job (JDict [(''name'', JStr ''app-1.0.0'')]) False (service []))) =
     [CreateJob (JDict [(''name'', JStr ''app-1.0.0'')])]"
  using submit_job_calls[of "JDict [(''name'', JStr ''app-1.0.0'')]" True "service []"]
    submit_job_calls[of "JDict [(''name'', JStr ''app-1.0.0'')]" False "service []"]
  by (simp add: service_def)

section \<open>At most one job of the application\<close>

lemma name_matches_plain:
  assumes "plain_name A"
  shows "name_matches A n \<longleftrightarrow> versioned A n"
proof (cases "prefix A n")
  case False
  then have "\<not> name_matches A n"
    using assms
    by (simp add: name_matches_def re_compile_def parse_items_plain re_search_def runs_lits)
  moreover have "\<not> versioned A n"
    using False unfolding versioned_def prefix_def by auto
  ultimately show ?thesis by simp
next
  case True
  then obtain r where n: "n = A @ r" unfolding prefix_def by blast
  have "name_matches A n \<longleftrightarrow> tail_ok r"
    unfolding n using assms
    by (simp add: name_matches_def re_compile_def parse_items_plain re_search_def runs_lits)
  also have "\<dots> \<longleftrightarrow> versioned A n"
    unfolding versioned_def tail_ok_iff n by simp
  finally show ?thesis .
qed

lemma filter_unique_removed:
  assumes "length (filter P xs) \<le> 1" and "j \<in> set xs" and "P j"
  shows "filter P (filter (\<lambda>x. f x \<noteq> f j) xs) = []"
proof -
  have "j \<in> set (filter P xs)" using assms(2,3) by simp
  then obtain ys where ys: "filter P xs = j # ys"
    using assms(1) by (cases "filter P xs") auto
  then have "ys = []" using assms(1) by simp
  then have s: "set (filter P xs) = {j}" using ys by simp
  have "\<And>x. x \<in> set xs \<Longrightarrow> P x \<Longrightarrow> x = j"
    using s by auto
  then show ?thesis by (auto simp: filter_empty_conv)
qed

lemma remove_job_success_result:
  assumes "fst (remove_job A s w) = Inr ()"
  obtains r where "application_job_id A (jobs w) = Inr r"
proof -
  have nr: "\<not> refused w ListJobs"
    using assms remove_job_refused[of w A s] by auto
  show ?thesis
  proof (cases "application_job_id A (jobs w)")
    case (Inl e)
    then show ?thesis
      using assms by (simp add: remove_job_unfold[OF nr] lift_io_def bind_io_def)
  next
    case (Inr r)
    then show ?thesis by (rule that)
  qed
qed

lemma remove_job_clears:
  assumes pl: "plain_name A"
    and ok: "fst (remove_job A s w) = Inr ()"
    and one: "length (filter (\<lambda>j. name_matches A (name j)) (jobs w)) \<le> 1"
    and nz: "\<forall>j\<in>set (jobs w). name_matches A (name j) \<longrightarrow> job_id j \<noteq> 0"
  shows "filter (\<lambda>j. name_matches A (name j)) (jobs (snd (remove_job A s w))) = []"
proof (cases "find (\<lambda>j. versioned A (name j)) (jobs w)")
  case None
  then have r: "application_job_id A (jobs w) = Inr None"
    by (simp add: application_job_id_versioned[OF pl])
  have "jobs (snd (remove_job A s w)) = jobs w"
    using remove_job_not_found[OF r, of s] by (simp add: truthy_def)
  moreover have "filter (\<lambda>j. name_matches A (name j)) (jobs w) = []"
    using None unfolding find_None_iff by (simp add: filter_empty_conv name_matches_plain[OF pl])
  ultimately show ?thesis by simp
next
  case (Some j)
  then have j: "j \<in> set (jobs w)" "versioned A (name j)"
    unfolding find_Some_iff by (auto simp: in_set_conv_nth)
  then have m: "name_matches A (name j)" by (simp add: name_matches_plain[OF pl])
  then have z: "job_id j \<noteq> 0" using nz j(1) by blast
  have r: "application_job_id A (jobs w) = Inr (Some (job_id j))"
    using Some by (simp add: application_job_id_versioned[OF pl])
  have "jobs (snd (remove_job A s w)) = filter (\<lambda>x. job_id x \<noteq> job_id j) (jobs w)"
    using remove_job_found[OF r z ok] by simp
  then show ?thesis
    using filter_unique_removed[OF one j(1) m, of job_id] by simp
qed

text \<open>
  Claim C2, amended.  For an application name without pattern characters: when at most
  one job of the remote list matches the pattern of the application before the run, no
  matching job has the id 0, and remove-then-submit runs to its end, then at most one
  job of the list matches after the run (the job just created, if its name matches).
\<close>

theorem redeploy_at_most_one:
  assumes "plain_name A"
    and "remove_job A s w = (Inr (), w1)"
    and "submit_job cfg s' w1 = (Inr (), w2)"
    and "length (filter (\<lambda>j. name_matches A (name j)) (jobs w)) \<le> 1"
    and "\<forall>j\<in>set (jobs w). name_matches A (name j) \<longrightarrow> job_id j \<noteq> 0"
  shows "length (filter (\<lambda>j. name_matches A (name j)) (jobs w2)) \<le> 1"
proof -
  have ok: "fst (remove_job A s w) = Inr ()" and w1: "w1 = snd (remove_job A s w)"
    using assms(2) by simp_all
  have c: "filter (\<lambda>j. name_matches A (name j)) (jobs w1) = []"
    unfolding w1 by (rule remove_job_clears[OF assms(1) ok assms(4,5)])
  have nr: "\<not> refused w1 (CreateJob cfg)"
    using assms(3) by (auto simp: submit_job_result split: if_splits)
  have "jobs w2 = jobs w1 @ [\<lparr>name = config_name cfg, job_id = next_job_id w1\<rparr>]"
    using assms(3) nr by (auto simp: submit_job_result split: if_splits)
  then show ?thesis using c by simp
qed

theorem redeploy_at_most_one_witness:
  "plain_name ''app'' \<and>
   fst (remove_job ''app'' False (service [\<lparr>name = ''app-1.0.0'', job_id = 7\<rparr>])) = Inr () \<and>
   fst (submit_job (JDict [(''name'', JStr ''app-1.0.1'')]) False
          (snd (remove_job ''app'' False (service [\<lparr>name = ''app-1.0.0'', job_id = 7\<rparr>]))))
     = Inr () \<and>
   jobs (snd (submit_job (JDict [(''name'', JStr ''app-1.0.1'')]) False
          (snd (remove_job ''app'' False (service [\<lparr>name = ''app-1.0.0'', job_id = 7\<rparr>])))))
     = [\<lparr>name = ''app-1.0.1'', job_id = 100\<rparr>] \<and>
   length (filter (\<lambda>j. name_matches ''app'' (name j))
     (jobs (snd (submit_job (JDict [(''name'', JStr ''app-1.0.1'')]) False
          (snd (remove_job ''app'' False (service [\<lparr>name = ''app-1.0.0'', job_id = 7\<rparr>]))))))) \<le> 1"
proof -
  let ?w = "service [\<lparr>name = ''app-1.0.0'', job_id = 7\<rparr>]"
  let ?cfg = "JDict [(''name'', JStr ''app-1.0.1'')]"
  let ?w1 = "snd (remove_job ''app'' False ?w)"
  let ?w2 = "snd (submit_job ?cfg False ?w1)"
  have 1: "fst (remove_job ''app'' False ?w) = Inr ()" by code_simp
  have 2: "fst (submit_job ?cfg False ?w1) = Inr ()" by code_simp
  have 3: "jobs ?w2 = [\<lparr>name = ''app-1.0.1'', job_id = 100\<rparr>]" by code_simp
  have 4: "length (filter (\<lambda>j. name_matches ''app'' (name j)) (jobs ?w)) \<le> 1"
    by (simp add: service_def)
  have 5: "\<forall>j\<in>set (jobs ?w). name_matches ''app'' (name j) \<longrightarrow> job_id j \<noteq> 0"
    by (simp add: service_def)
  have r: "remove_job ''app'' False ?w = (Inr (), ?w1)"
    using 1 by (metis prod.collapse)
  have s: "submit_job ?cfg False ?w1 = (Inr (), ?w2)"
    using 2 by (metis prod.collapse)
  show ?thesis
    using redeploy_at_most_one[OF plain_app r s 4 5] 1 2 3 plain_app by simp
qed

text \<open>
  Claim C2 as stated fails for a starting list with two matching jobs: only the first
  is removed, and after the run two jobs match.
\<close>

theorem redeploy_at_most_one_counterexample:
  "fst (remove_job ''app'' False
          (service [\<lparr>name = ''app-1.0.0'', job_id = 1\<rparr>, \<lparr>name = ''app-SNAPSHOT'', job_id = 2\<rparr>]))
     = Inr () \<and>
   fst (submit_job (JDict [(''name'', JStr ''app-1.0.1'')]) False
          (snd (remove_job ''app'' False
             (service [\<lparr>name = ''app-1.0.0'', job_id = 1\<rparr>, \<lparr>name = ''app-SNAPSHOT'', job_id = 2\<rparr>]))))
     = Inr () \<and>
   filter (\<lambda>j. name_matches ''app'' (name j))
     (jobs (snd (submit_job (JDict [(''name'', JStr ''app-1.0.1'')]) False
          (snd (remove_job ''app'' False
             (service [\<lparr>name = ''app-1.0.0'', job_id = 1\<rparr>, \<lparr>name = ''app-SNAPSHOT'', job_id = 2\<rparr>])))))) =
     [\<lparr>name = ''app-SNAPSHOT'', job_id = 2\<rparr>, \<lparr>name = ''app-1.0.1'', job_id = 100\<rparr>]"
  by code_simp

section \<open>Properties of the job-config builder\<close>

lemma bind_res_Inr_iff: "bind_res m f = Inr y \<longleftrightarrow> (\<exists>x. m = Inr x \<and> f x = Inr y)"
  by (cases m) (simp_all add: bind_res_def)

lemma bind_res_Inl: "bind_res (Inl e) f = Inl e"
  by (simp add: bind_res_def)

lemma bind_res_Inr: "bind_res (Inr x) f = f x"
  by (simp add: bind_res_def)

lemma getitem_Inr_iff: "getitem j k = Inr v \<longleftrightarrow> (\<exists>d. j = JDict d \<and> map_of d k = Some v)"
  by (cases j) (auto split: option.splits)

lemma setitem_Inr_iff: "setitem j k v = Inr r \<longleftrightarrow> (\<exists>d. j = JDict d \<and> r = JDict (AList.update k v d))"
  by (cases j) auto

lemma list_append_Inr_iff: "list_append j v = Inr r \<longleftrightarrow> (\<exists>xs. j = JList xs \<and> r = JList (xs @ [v]))"
  by (cases j) auto

lemma format_value_Inr_iff:
  "format_value j v = Inr r \<longleftrightarrow> (\<exists>s s'. j = JStr s \<and> str_format s v = Inr s' \<and> r = JStr s')"
  by (cases j) (auto simp: bind_res_Inr_iff)

lemma warehouse_dir_Inr_iff:
  "warehouse_dir j = Inr v \<longleftrightarrow>
     (\<exists>d nc sc. j = JDict d \<and> map_of d ''new_cluster'' = Some (JDict nc) \<and>
        map_of nc ''spark_conf'' = Some (JDict sc) \<and>
        map_of sc ''spark.sql.warehouse.dir'' = Some v)"
  by (auto simp: warehouse_dir_def bind_res_Inr_iff getitem_Inr_iff)

lemma construct_job_config_world: "snd (construct_job_config fn n dtap egg py w) = w"
  by (simp add: construct_job_config_def bind_io_def read_job_config_def lift_io_def
      split: option.splits)

lemma construct_job_config_missing_file:
  "files w fn = None \<Longrightarrow> construct_job_config fn n dtap egg py w = (Inl IOError, w)"
  by (simp add: construct_job_config_def bind_io_def read_job_config_def)

lemma construct_job_config_Inr:
  assumes "fst (construct_job_config fn n dtap egg py w) = Inr cfg"
  shows "\<exists>d nc sc s s' spt libs.
           files w fn = Some (JDict d) \<and>
           map_of d ''new_cluster'' = Some (JDict nc) \<and>
           map_of nc ''spark_conf'' = Some (JDict sc) \<and>
           map_of sc ''spark.sql.warehouse.dir'' = Some (JStr s) \<and>
           str_format s (lower dtap) = Inr s' \<and>
           map_of d ''spark_python_task'' = Some (JDict spt) \<and>
           map_of d ''libraries'' = Some (JList libs) \<and>
           cfg = built d nc sc s' spt libs n egg py"
proof -
  obtain tpl where f: "files w fn = Some tpl"
    using assms by (cases "files w fn") (simp_all add: construct_job_config_missing_file)
  have "bind_res (warehouse_dir tpl)
          (\<lambda>wd. bind_res (format_value wd (lower dtap))
          (\<lambda>wd'. bind_res (getitem tpl ''new_cluster'')
          (\<lambda>nc. bind_res (getitem nc ''spark_conf'')
          (\<lambda>sc. bind_res (setitem sc ''spark.sql.warehouse.dir'' wd')
          (\<lambda>sc'. bind_res (setitem nc ''spark_conf'' sc')
          (\<lambda>nc'. bind_res (setitem tpl ''new_cluster'' nc')
          (\<lambda>c1. bind_res (setitem c1 ''name'' (JStr n))
          (\<lambda>c2. bind_res (getitem c2 ''spark_python_task'')
          (\<lambda>spt. bind_res (setitem spt ''python_file'' (JStr py))
          (\<lambda>spt'. bind_res (setitem c2 ''spark_python_task'' spt')
          (\<lambda>c3. bind_res (getitem c3 ''libraries'')
          (\<lambda>libs. bind_res (list_append libs (JDict [(''egg'', JStr egg)]))
          (\<lambda>libs'. setitem c3 ''libraries'' libs'))))))))))))) = Inr cfg"
    using assms f
    by (simp add: construct_job_config_def bind_io_def read_job_config_def lift_io_def)
  then show ?thesis
    unfolding f built_def
    by (auto simp: bind_res_Inr_iff warehouse_dir_Inr_iff format_value_Inr_iff getitem_Inr_iff
        setitem_Inr_iff list_append_Inr_iff update_conv')
qed

lemma lookup_built_other:
  assumes "k \<notin> {''new_cluster'', ''name'', ''spark_python_task'', ''libraries''}"
  shows "lookup_path (built d nc sc s' spt libs n egg py) (k # ks) = lookup_path (JDict d) (k # ks)"
  using assms by (simp add: built_def update_conv')

lemma lookup_built_task:
  assumes "map_of d ''spark_python_task'' = Some (JDict spt)" and "k \<noteq> ''python_file''"
  shows "lookup_path (built d nc sc s' spt libs n egg py) (''spark_python_task'' # k # ks) =
         lookup_path (JDict d) (''spark_python_task'' # k # ks)"
  using assms by (simp add: built_def update_conv')

lemma lookup_built_cluster:
  assumes "map_of d ''new_cluster'' = Some (JDict nc)" and "k \<noteq> ''spark_conf''"
  shows "lookup_path (built d nc sc s' spt libs n egg py) (''new_cluster'' # k # ks) =
         lookup_path (JDict d) (''new_cluster'' # k # ks)"
  using assms by (simp add: built_def update_conv')

lemma lookup_built_conf:
  assumes "map_of d ''new_cluster'' = Some (JDict nc)"
    and "map_of nc ''spark_conf'' = Some (JDict sc)" and "k \<noteq> ''spark.sql.warehouse.dir''"
  shows "lookup_path (built d nc sc s' spt libs n egg py) (''new_cluster'' # ''spark_conf'' # k # ks) =
         lookup_path (JDict d) (''new_cluster'' # ''spark_conf'' # k # ks)"
  using assms by (simp add: built_def update_conv')

lemma lookup_built_written:
  "lookup_path (built d nc sc s' spt libs n egg py) [''libraries''] =
     Some (JList (libs @ [JDict [(''egg'', JStr egg)]]))"
  "lookup_path (built d nc sc s' spt libs n egg py) [''name''] = Some (JStr n)"
  "lookup_path (built d nc sc s' spt libs n egg py) [''spark_python_task'', ''python_file''] =
     Some (JStr py)"
  "lookup_path (built d nc sc s' spt libs n egg py) warehouse_path = Some (JStr s')"
  by (simp_all add: built_def update_conv' warehouse_path_def)

lemma untouched_cases:
  assumes "untouched p"
  obtains k ks where "p = k # ks"
      "k \<notin> {''new_cluster'', ''name'', ''spark_python_task'', ''libraries''}"
  | k ks where "p = ''spark_python_task'' # k # ks" "k \<noteq> ''python_file''"
  | k ks where "p = ''new_cluster'' # k # ks" "k \<noteq> ''spark_conf''"
  | k ks where "p = ''new_cluster'' # ''spark_conf'' # k # ks" "k \<noteq> ''spark.sql.warehouse.dir''"
proof -
  have a: "\<not> prefix p warehouse_path" "\<not> prefix warehouse_path p"
    "\<not> prefix p [''name'']" "\<not> prefix [''name''] p"
    "\<not> prefix p [''spark_python_task'', ''python_file'']"
    "\<not> prefix [''spark_python_task'', ''python_file''] p"
    "\<not> prefix p [''libraries'']" "\<not> prefix [''libraries''] p"
    using assms by (simp_all add: untouched_def touched_paths_def)
  from a(3) obtain k ks where p: "p = k # ks" by (cases p) auto
  have k1: "k \<noteq> ''name''" "k \<noteq> ''libraries''" using a(4,8) p by auto
  show ?thesis
  proof (cases "k = ''spark_python_task''")
    case True
    then obtain k2 ks2 where "ks = k2 # ks2" using a(5) p by (cases ks) auto
    then show ?thesis using that(2) True a(6) p by auto
  next
    case False
    show ?thesis
    proof (cases "k = ''new_cluster''")
      case nc: True
      then obtain k2 ks2 where ks: "ks = k2 # ks2"
        using a(1) p by (cases ks) (auto simp: warehouse_path_def)
      show ?thesis
      proof (cases "k2 = ''spark_conf''")
        case True
        then obtain k3 ks3 where "ks2 = k3 # ks3"
          using a(1) p nc ks by (cases ks2) (auto simp: warehouse_path_def)
        then show ?thesis
          using that(4) True a(2) p nc ks by (auto simp: warehouse_path_def)
      next
        case False
        then show ?thesis using that(3) p nc ks by auto
      qed
    next
      case f2: False
      then show ?thesis using that(1) p False k1 by auto
    qed
  qed
qed

text \<open>
  Claim C9.  When the builder returns a config, the world is as before (the builder
  only reads the file), and the config is the loaded template except in four places:
  the warehouse directory holds the interpolated string, the top-level name and the
  entry-point path hold the given strings, and the libraries list is the old list, in
  its order, with one entry for the package added at its end.  The value at every path
  that does not lead to or into one of these places is the same in both.
\<close>

theorem construct_job_config_frame:
  assumes "construct_job_config fn n dtap egg py w = (Inr cfg, w')"
  shows "w' = w \<and>
         (\<exists>tpl libs s s'.
            files w fn = Some tpl \<and>
            (\<forall>p. untouched p \<longrightarrow> lookup_path cfg p = lookup_path tpl p) \<and>
            lookup_path tpl [''libraries''] = Some (JList libs) \<and>
            lookup_path cfg [''libraries''] = Some (JList (libs @ [JDict [(''egg'', JStr egg)]])) \<and>
            lookup_path cfg [''name''] = Some (JStr n) \<and>
            lookup_path cfg [''spark_python_task'', ''python_file''] = Some (JStr py) \<and>
            lookup_path tpl warehouse_path = Some (JStr s) \<and>
            str_format s (lower dtap) = Inr s' \<and>
            lookup_path cfg warehouse_path = Some (JStr s'))"
proof
  show "w' = w" using assms construct_job_config_world[of fn n dtap egg py w] by simp
next
  have "fst (construct_job_config fn n dtap egg py w) = Inr cfg" using assms by simp
  from construct_job_config_Inr[OF this] obtain d nc sc s s' spt libs where
    f: "files w fn = Some (JDict d)" and
    nc: "map_of d ''new_cluster'' = Some (JDict nc)" and
    sc: "map_of nc ''spark_conf'' = Some (JDict sc)" and
    s: "map_of sc ''spark.sql.warehouse.dir'' = Some (JStr s)" and
    s': "str_format s (lower dtap) = Inr s'" and
    spt: "map_of d ''spark_python_task'' = Some (JDict spt)" and
    libs: "map_of d ''libraries'' = Some (JList libs)" and
    cfg: "cfg = built d nc sc s' spt libs n egg py"
    by (elim exE conjE) (rule that)
  have frame: "\<forall>p. untouched p \<longrightarrow> lookup_path cfg p = lookup_path (JDict d) p"
  proof (intro allI impI)
    fix p assume "untouched p"
    then show "lookup_path cfg p = lookup_path (JDict d) p"
    proof (cases rule: untouched_cases)
      case (1 k ks)
      then show ?thesis unfolding cfg using lookup_built_other by simp
    next
      case (2 k ks)
      then show ?thesis unfolding cfg using lookup_built_task[OF spt] by simp
    next
      case (3 k ks)
      then show ?thesis unfolding cfg using lookup_built_cluster[OF nc] by simp
    next
      case (4 k ks)
      then show ?thesis unfolding cfg using lookup_built_conf[OF nc sc] by simp
    qed
  qed
  have 1: "lookup_path (JDict d) [''libraries''] = Some (JList libs)" using libs by simp
  have 2: "lookup_path (JDict d) warehouse_path = Some (JStr s)"
    using nc sc s by (simp add: warehouse_path_def)
  show "\<exists>tpl libs s s'.
            files w fn = Some tpl \<and>
            (\<forall>p. untouched p \<longrightarrow> lookup_path cfg p = lookup_path tpl p) \<and>
            lookup_path tpl [''libraries''] = Some (JList libs) \<and>
            lookup_path cfg [''libraries''] = Some (JList (libs @ [JDict [(''egg'', JStr egg)]])) \<and>
            lookup_path cfg [''name''] = Some (JStr n) \<and>
            lookup_path cfg [''spark_python_task'', ''python_file''] = Some (JStr py) \<and>
            lookup_path tpl warehouse_path = Some (JStr s) \<and>
            str_format s (lower dtap) = Inr s' \<and>
            lookup_path cfg warehouse_path = Some (JStr s')"
    using f frame 1 2 s' lookup_built_written[of d nc sc s' spt libs n egg py]
    unfolding cfg by blast
qed

lemma scan_format_plain: "no_braces s \<Longrightarrow> scan_format None s v = Inr s"
proof (induction s rule: induct_list012)
  case 1
  then show ?case by simp
next
  case (2 c)
  then show ?case by (auto simp: no_braces_def)
next
  case (3 c d ds)
  then have "scan_format None (d # ds) v = Inr (d # ds)" by (simp add: no_braces_def)
  moreover have "c \<noteq> CHR ''{''" "c \<noteq> CHR ''}''" using 3(3) by (auto simp: no_braces_def)
  ultimately show ?case by (simp add: bind_res_def)
qed

lemma scan_format_dtap:
  assumes "no_braces pre" and "no_braces post"
  shows "scan_format None (pre @ ''{dtap}'' @ post) v = Inr (pre @ v @ post)"
  using assms(1)
proof (induction pre)
  case Nil
  have "replace_field ''dtap'' v = Inr v"
    by (simp add: replace_field_def field_special_def)
  then show ?case
    using scan_format_plain[OF assms(2), of v] by (simp add: bind_res_def)
next
  case (Cons c pre)
  then have ih: "scan_format None (pre @ ''{dtap}'' @ post) v = Inr (pre @ v @ post)"
    by (simp add: no_braces_def)
  obtain d ds where e: "pre @ ''{dtap}'' @ post = d # ds"
    by (cases "pre @ ''{dtap}'' @ post") simp_all
  have c: "c \<noteq> CHR ''{''" "c \<noteq> CHR ''}''" using Cons.prems by (auto simp: no_braces_def)
  have "scan_format None ((c # pre) @ ''{dtap}'' @ post) v =
        scan_format None (c # (pre @ ''{dtap}'' @ post)) v" by simp
  also have "\<dots> = bind_res (scan_format None (pre @ ''{dtap}'' @ post) v) (\<lambda>r. Inr (c # r))"
    unfolding e using c by simp
  also have "\<dots> = Inr ((c # pre) @ v @ post)"
    unfolding ih by (simp add: bind_res_def)
  finally show ?case .
qed

lemma str_format_plain: "no_braces s \<Longrightarrow> str_format s v = Inr s"
  by (simp add: str_format_def scan_format_plain)

lemma str_format_dtap:
  "no_braces pre \<Longrightarrow> no_braces post \<Longrightarrow>
     str_format (pre @ ''{dtap}'' @ post) v = Inr (pre @ v @ post)"
  unfolding str_format_def by (rule scan_format_dtap)

lemma lower_PRD: "lower ''PRD'' = ''prd''" and lower_DEV: "lower ''DEV'' = ''dev''"
  by code_simp+

lemma construct_job_config_fst:
  "files w fn = Some tpl \<Longrightarrow>
   fst (construct_job_config fn n dtap egg py w) =
     bind_res (warehouse_dir tpl)
          (\<lambda>wd. bind_res (format_value wd (lower dtap))
          (\<lambda>wd'. bind_res (getitem tpl ''new_cluster'')
          (\<lambda>nc. bind_res (getitem nc ''spark_conf'')
          (\<lambda>sc. bind_res (setitem sc ''spark.sql.warehouse.dir'' wd')
          (\<lambda>sc'. bind_res (setitem nc ''spark_conf'' sc')
          (\<lambda>nc'. bind_res (setitem tpl ''new_cluster'' nc')
          (\<lambda>c1. bind_res (setitem c1 ''name'' (JStr n))
          (\<lambda>c2. bind_res (getitem c2 ''spark_python_task'')
          (\<lambda>spt. bind_res (setitem spt ''python_file'' (JStr py))
          (\<lambda>spt'. bind_res (setitem c2 ''spark_python_task'' spt')
          (\<lambda>c3. bind_res (getitem c3 ''libraries'')
          (\<lambda>libs. bind_res (list_append libs (JDict [(''egg'', JStr egg)]))
          (\<lambda>libs'. setitem c3 ''libraries'' libs')))))))))))))"
  by (simp add: construct_job_config_def bind_io_def read_job_config_def lift_io_def)

lemma construct_scenario:
  assumes "files w fn = Some scenario_template"
  shows "construct_job_config fn n dtap egg py w =
     (Inr (JDict [(''new_cluster'',
               JDict [(''spark_conf'',
                       JDict [(''spark.sql.warehouse.dir'', JStr (''/mnt/'' @ lower dtap))])]),
            (''spark_python_task'', JDict [(''python_file'', JStr py)]),
            (''libraries'', JList [JDict [(''egg'', JStr egg)]]),
            (''name'', JStr n)]), w)"
proof -
  have nb: "no_braces ''/mnt/''" "no_braces []" by (simp_all add: no_braces_def)
  have f: "str_format ''/mnt/{dtap}'' (lower dtap) = Inr (''/mnt/'' @ lower dtap)"
    using str_format_dtap[OF nb, of "lower dtap"] by simp
  have "fst (construct_job_config fn n dtap egg py w) =
     Inr (JDict [(''new_cluster'',
               JDict [(''spark_conf'',
                       JDict [(''spark.sql.warehouse.dir'', JStr (''/mnt/'' @ lower dtap))])]),
            (''spark_python_task'', JDict [(''python_file'', JStr py)]),
            (''libraries'', JList [JDict [(''egg'', JStr egg)]]),
            (''name'', JStr n)])"
    unfolding construct_job_config_fst[OF assms]
    by (simp add: scenario_template_def warehouse_dir_def bind_res_def f)
  then show ?thesis
    using construct_job_config_world[of fn n dtap egg py w] by (metis prod.collapse)
qed

text \<open>
  Claim C4.  For the template of the first scenario, the name \<open>app-1.0.0\<close> and the tier
  PRD, with any package path and entry-point path, the builder returns a config whose
  warehouse directory is \<open>/mnt/prd\<close>, whose name is \<open>app-1.0.0\<close>, whose libraries list is
  the one entry for the package, and which has no key \<open>schedule\<close>.  In general a
  placeholder \<open>{dtap}\<close> in the warehouse directory is replaced by the tier name in lower
  case: DEV gives \<open>dev\<close>, PRD gives \<open>prd\<close>.
\<close>

theorem construct_job_config_scenario:
  "(files w fn = Some scenario_template \<longrightarrow>
      (\<exists>cfg. construct_job_config fn ''app-1.0.0'' ''PRD'' egg py w = (Inr cfg, w) \<and>
         lookup_path cfg warehouse_path = Some (JStr ''/mnt/prd'') \<and>
         lookup_path cfg [''name''] = Some (JStr ''app-1.0.0'') \<and>
         lookup_path cfg [''libraries''] = Some (JList [JDict [(''egg'', JStr egg)]]) \<and>
         has_schedule cfg = Inr False)) \<and>
   (\<forall>cfg w' tpl pre post dtap n.
      construct_job_config fn n dtap egg py w = (Inr cfg, w') \<and> files w fn = Some tpl \<and>
      lookup_path tpl warehouse_path = Some (JStr (pre @ ''{dtap}'' @ post)) \<and>
      no_braces pre \<and> no_braces post \<longrightarrow>
      lookup_path cfg warehouse_path = Some (JStr (pre @ lower dtap @ post))) \<and>
   lower ''DEV'' = ''dev'' \<and> lower ''PRD'' = ''prd''"
proof (intro conjI impI allI)
  assume f: "files w fn = Some scenario_template"
  show "\<exists>cfg. construct_job_config fn ''app-1.0.0'' ''PRD'' egg py w = (Inr cfg, w) \<and>
         lookup_path cfg warehouse_path = Some (JStr ''/mnt/prd'') \<and>
         lookup_path cfg [''name''] = Some (JStr ''app-1.0.0'') \<and>
         lookup_path cfg [''libraries''] = Some (JList [JDict [(''egg'', JStr egg)]]) \<and>
         has_schedule cfg = Inr False"
    unfolding construct_scenario[OF f]
    by (simp add: lower_PRD warehouse_path_def has_schedule_def bind_res_def)
next
  fix cfg w' tpl pre post dtap n
  assume a: "construct_job_config fn n dtap egg py w = (Inr cfg, w') \<and> files w fn = Some tpl \<and>
      lookup_path tpl warehouse_path = Some (JStr (pre @ ''{dtap}'' @ post)) \<and>
      no_braces pre \<and> no_braces post"
  then have "fst (construct_job_config fn n dtap egg py w) = Inr cfg" by simp
  from construct_job_config_Inr[OF this] obtain d nc sc s s' spt libs where
    f: "files w fn = Some (JDict d)" and
    nc: "map_of d ''new_cluster'' = Some (JDict nc)" and
    sc: "map_of nc ''spark_conf'' = Some (JDict sc)" and
    s: "map_of sc ''spark.sql.warehouse.dir'' = Some (JStr s)" and
    s': "str_format s (lower dtap) = Inr s'" and
    cfg: "cfg = built d nc sc s' spt libs n egg py"
    by (elim exE conjE) (rule that)
  have "lookup_path (JDict d) warehouse_path = Some (JStr s)"
    using nc sc s by (simp add: warehouse_path_def)
  then have "s = pre @ ''{dtap}'' @ post" using a f by simp
  then have "s' = pre @ lower dtap @ post"
    using s' str_format_dtap[of pre post "lower dtap"] a by simp
  then show "lookup_path cfg warehouse_path = Some (JStr (pre @ lower dtap @ post))"
    unfolding cfg by (simp add: lookup_built_written)
next
  show "lower ''DEV'' = ''dev''" by (rule lower_DEV)
  show "lower ''PRD'' = ''prd''" by (rule lower_PRD)
qed

theorem construct_job_config_scenario_witness:
  "files (with_file JOB_CFG scenario_template (service [])) JOB_CFG = Some scenario_template \<and>
   (\<exists>cfg. construct_job_config JOB_CFG ''app-1.0.0'' ''PRD''
             ''dbfs:/mnt/sdhdev/libraries/app/app-1.0.0.egg''
             ''dbfs:/mnt/sdhdev/libraries/app/app-main-1.0.0.py''
             (with_file JOB_CFG scenario_template (service [])) =
             (Inr cfg, with_file JOB_CFG scenario_template (service [])) \<and>
         lookup_path cfg warehouse_path = Some (JStr ''/mnt/prd'') \<and>
         lookup_path cfg [''name''] = Some (JStr ''app-1.0.0'') \<and>
         lookup_path cfg [''libraries''] =
           Some (JList [JDict [(''egg'', JStr ''dbfs:/mnt/sdhdev/libraries/app/app-1.0.0.egg'')]]) \<and>
         has_schedule cfg = Inr False)"
proof -
  have f: "files (with_file JOB_CFG scenario_template (service [])) JOB_CFG
             = Some scenario_template"
    by (simp add: with_file_def)
  show ?thesis
    using construct_job_config_scenario[of "with_file JOB_CFG scenario_template (service [])"
        JOB_CFG "''dbfs:/mnt/sdhdev/libraries/app/app-1.0.0.egg''"
        "''dbfs:/mnt/sdhdev/libraries/app/app-main-1.0.0.py''"] f
    by blast
qed

text \<open>
  Claim C8, amended.  The builder fails with the error of the lookup whenever the
  warehouse-directory field cannot be read from the template: a KeyError naming the
  key when \<open>new_cluster\<close>, \<open>spark_conf\<close> or \<open>spark.sql.warehouse.dir\<close> is absent.  When the
  field is a string without braces, and so without the placeholder, the interpolation
  raises nothing and leaves the string as it is.
\<close>

theorem construct_job_config_warehouse_field:
  "(files w fn = Some tpl \<and> warehouse_dir tpl = Inl e \<longrightarrow>
      construct_job_config fn n dtap egg py w = (Inl e, w)) \<and>
   (map_of d ''new_cluster'' = None \<longrightarrow>
      warehouse_dir (JDict d) = Inl (KeyError ''new_cluster'')) \<and>
   (map_of d ''new_cluster'' = Some (JDict nc) \<and> map_of nc ''spark_conf'' = None \<longrightarrow>
      warehouse_dir (JDict d) = Inl (KeyError ''spark_conf'')) \<and>
   (map_of d ''new_cluster'' = Some (JDict nc) \<and> map_of nc ''spark_conf'' = Some (JDict sc) \<and>
    map_of sc ''spark.sql.warehouse.dir'' = None \<longrightarrow>
      warehouse_dir (JDict d) = Inl (KeyError ''spark.sql.warehouse.dir'')) \<and>
   (no_braces s \<longrightarrow> format_value (JStr s) (lower dtap) = Inr (JStr s)) \<and>
   (\<forall>cfg w'. files w fn = Some tpl \<and> warehouse_dir tpl = Inr (JStr s) \<and> no_braces s \<and>
      construct_job_config fn n dtap egg py w = (Inr cfg, w') \<longrightarrow>
      lookup_path cfg warehouse_path = Some (JStr s))"
proof (intro conjI impI allI)
  assume a: "files w fn = Some tpl \<and> warehouse_dir tpl = Inl e"
  then have "fst (construct_job_config fn n dtap egg py w) = Inl e"
    by (simp add: construct_job_config_fst bind_res_def)
  then show "construct_job_config fn n dtap egg py w = (Inl e, w)"
    using construct_job_config_world[of fn n dtap egg py w] by (metis prod.collapse)
next
  assume "map_of d ''new_cluster'' = None"
  then show "warehouse_dir (JDict d) = Inl (KeyError ''new_cluster'')"
    by (simp add: warehouse_dir_def bind_res_def)
next
  assume "map_of d ''new_cluster'' = Some (JDict nc) \<and> map_of nc ''spark_conf'' = None"
  then show "warehouse_dir (JDict d) = Inl (KeyError ''spark_conf'')"
    by (simp add: warehouse_dir_def bind_res_def)
next
  assume "map_of d ''new_cluster'' = Some (JDict nc) \<and> map_of nc ''spark_conf'' = Some (JDict sc) \<and>
    map_of sc ''spark.sql.warehouse.dir'' = None"
  then show "warehouse_dir (JDict d) = Inl (KeyError ''spark.sql.warehouse.dir'')"
    by (simp add: warehouse_dir_def bind_res_def)
next
  assume "no_braces s"
  then show "format_value (JStr s) (lower dtap) = Inr (JStr s)"
    by (simp add: str_format_plain bind_res_def)
next
  fix cfg w'
  assume a: "files w fn = Some tpl \<and> warehouse_dir tpl = Inr (JStr s) \<and> no_braces s \<and>
      construct_job_config fn n dtap egg py w = (Inr cfg, w')"
  then have "fst (construct_job_config fn n dtap egg py w) = Inr cfg" by simp
  from construct_job_config_Inr[OF this] obtain d nc sc t s' spt libs where
    f: "files w fn = Some (JDict d)" and
    nc: "map_of d ''new_cluster'' = Some (JDict nc)" and
    sc: "map_of nc ''spark_conf'' = Some (JDict sc)" and
    t: "map_of sc ''spark.sql.warehouse.dir'' = Some (JStr t)" and
    s': "str_format t (lower dtap) = Inr s'" and
    cfg: "cfg = built d nc sc s' spt libs n egg py"
    by (elim exE conjE) (rule that)
  have "warehouse_dir (JDict d) = Inr (JStr t)"
    using nc sc t by (simp add: warehouse_dir_def bind_res_def)
  then have "t = s" using a f by simp
  then have "s' = s" using s' a by (simp add: str_format_plain)
  then show "lookup_path cfg warehouse_path = Some (JStr s)"
    unfolding cfg by (simp add: lookup_built_written)
qed

theorem construct_job_config_warehouse_field_witness:
  "map_of [(''new_cluster'', JDict [])] ''new_cluster'' = Some (JDict []) \<and>
   map_of ([] :: (string \<times> json) list) ''spark_conf'' = None \<and>
   warehouse_dir (JDict [(''new_cluster'', JDict [])]) = Inl (KeyError ''spark_conf'') \<and>
   construct_job_config JOB_CFG ''app-1.0.0'' ''PRD'' ''e'' ''p''
     (with_file JOB_CFG (JDict [(''new_cluster'', JDict [])]) (service [])) =
     (Inl (KeyError ''spark_conf''),
      with_file JOB_CFG (JDict [(''new_cluster'', JDict [])]) (service []))"
proof -
  let ?t = "JDict [(''new_cluster'', JDict [])]"
  let ?w = "with_file JOB_CFG ?t (service [])"
  have 1: "map_of [(''new_cluster'', JDict [])] ''new_cluster'' = Some (JDict []) \<and>
           map_of ([] :: (string \<times> json) list) ''spark_conf'' = None" by simp
  have 2: "warehouse_dir ?t = Inl (KeyError ''spark_conf'')"
    using construct_job_config_warehouse_field[of ?w JOB_CFG ?t "KeyError ''spark_conf''"
        "''app-1.0.0''" "''PRD''" "''e''" "''p''" "[(''new_cluster'', JDict [])]" "[]"] 1
    by blast
  have 3: "files ?w JOB_CFG = Some ?t" by (simp add: with_file_def)
  have "construct_job_config JOB_CFG ''app-1.0.0'' ''PRD'' ''e'' ''p'' ?w =
          (Inl (KeyError ''spark_conf''), ?w)"
    using construct_job_config_warehouse_field[of ?w JOB_CFG ?t "KeyError ''spark_conf''"
        "''app-1.0.0''" "''PRD''" "''e''" "''p''"] 2 3
    by blast
  then show ?thesis using 1 2 by simp
qed

text \<open>
  Claim C8 as stated fails for a template whose warehouse directory is present and
  holds no placeholder: the builder returns a config, with the string unchanged.
\<close>

theorem construct_job_config_warehouse_field_counterexample:
  "warehouse_dir fixed_template = Inr (JStr ''/mnt/fixed'') \<and>
   fst (construct_job_config JOB_CFG ''app-1.0.0'' ''PRD'' ''app-1.0.0.egg'' ''app-main-1.0.0.py''
          (with_file JOB_CFG fixed_template (service []))) =
     Inr (JDict [(''new_cluster'',
               JDict [(''spark_conf'', JDict [(''spark.sql.warehouse.dir'', JStr ''/mnt/fixed'')])]),
            (''spark_python_task'', JDict [(''python_file'', JStr ''app-main-1.0.0.py'')]),
            (''libraries'', JList [JDict [(''egg'', JStr ''app-1.0.0.egg'')]]),
            (''name'', JStr ''app-1.0.0'')])"
  by code_simp

theorem construct_job_config_frame_witness:
  "\<exists>cfg.
     construct_job_config JOB_CFG ''app-1.0.0'' ''PRD'' ''e.egg'' ''main.py''
       (with_file JOB_CFG rich_template (service [])) =
       (Inr cfg, with_file JOB_CFG rich_template (service [])) \<and>
     files (with_file JOB_CFG rich_template (service [])) JOB_CFG = Some rich_template \<and>
     (\<forall>p. untouched p \<longrightarrow> lookup_path cfg p = lookup_path rich_template p) \<and>
     untouched [''max_retries''] \<and>
     lookup_path cfg [''max_retries''] = Some (JInt 3) \<and>
     untouched [''email_notifications'', ''on_failure''] \<and>
     lookup_path cfg [''email_notifications'', ''on_failure''] =
       Some (JList [JStr ''ops@example.org'']) \<and>
     untouched [''new_cluster'', ''num_workers''] \<and>
     lookup_path cfg [''new_cluster'', ''num_workers''] = Some (JInt 2) \<and>
     untouched [''new_cluster'', ''spark_conf'', ''spark.executor.memory''] \<and>
     lookup_path cfg [''new_cluster'', ''spark_conf'', ''spark.executor.memory''] =
       Some (JStr ''4g'') \<and>
     untouched [''spark_python_task'', ''parameters''] \<and>
     lookup_path cfg [''spark_python_task'', ''parameters''] = Some (JList [JStr ''--verbose'']) \<and>
     lookup_path rich_template [''libraries''] =
       Some (JList [JDict [(''jar'', JStr ''dbfs:/lib/a.jar'')],
                    JDict [(''pypi'', JDict [(''package'', JStr ''simplejson'')])]]) \<and>
     lookup_path cfg [''libraries''] =
       Some (JList [JDict [(''jar'', JStr ''dbfs:/lib/a.jar'')],
                    JDict [(''pypi'', JDict [(''package'', JStr ''simplejson'')])],
                    JDict [(''egg'', JStr ''e.egg'')]]) \<and>
     lookup_path cfg [''name''] = Some (JStr ''app-1.0.0'') \<and>
     lookup_path cfg [''spark_python_task'', ''python_file''] = Some (JStr ''main.py'') \<and>
     lookup_path cfg warehouse_path = Some (JStr ''/mnt/prd/warehouse'')"
proof -
  let ?w = "with_file JOB_CFG rich_template (service [])"
  have f: "files ?w JOB_CFG = Some rich_template" by (simp add: with_file_def)
  have nb: "no_braces ''/mnt/''" "no_braces ''/warehouse''" by (simp_all add: no_braces_def)
  have sf: "str_format ''/mnt/{dtap}/warehouse'' (lower ''PRD'') = Inr ''/mnt/prd/warehouse''"
    using str_format_dtap[OF nb, of "lower ''PRD''"] by (simp add: lower_PRD)
  have "\<exists>cfg. fst (construct_job_config JOB_CFG ''app-1.0.0'' ''PRD'' ''e.egg'' ''main.py'' ?w)
          = Inr cfg"
    unfolding construct_job_config_fst[OF f]
    by (simp add: rich_template_def warehouse_dir_def bind_res_def sf)
  then obtain cfg where
    "fst (construct_job_config JOB_CFG ''app-1.0.0'' ''PRD'' ''e.egg'' ''main.py'' ?w) = Inr cfg"
    by blast
  then have c: "construct_job_config JOB_CFG ''app-1.0.0'' ''PRD'' ''e.egg'' ''main.py'' ?w
                  = (Inr cfg, ?w)"
    using construct_job_config_world[of JOB_CFG "''app-1.0.0''" "''PRD''" "''e.egg''"
        "''main.py''" ?w]
    by (metis prod.collapse)
  from construct_job_config_frame[OF c] obtain tpl libs s s' where
    t: "files ?w JOB_CFG = Some tpl" and
    frame: "\<forall>p. untouched p \<longrightarrow> lookup_path cfg p = lookup_path tpl p" and
    l1: "lookup_path tpl [''libraries''] = Some (JList libs)" and
    l2: "lookup_path cfg [''libraries''] = Some (JList (libs @ [JDict [(''egg'', JStr ''e.egg'')]]))" and
    n: "lookup_path cfg [''name''] = Some (JStr ''app-1.0.0'')" and
    p: "lookup_path cfg [''spark_python_task'', ''python_file''] = Some (JStr ''main.py'')" and
    s: "lookup_path tpl warehouse_path = Some (JStr s)" and
    s': "str_format s (lower ''PRD'') = Inr s'" and
    wd: "lookup_path cfg warehouse_path = Some (JStr s')"
    by (elim exE conjE) (rule that)
  have tpl: "tpl = rich_template" using t f by simp
  have u: "untouched [''max_retries'']" "untouched [''email_notifications'', ''on_failure'']"
    "untouched [''new_cluster'', ''num_workers'']"
    "untouched [''new_cluster'', ''spark_conf'', ''spark.executor.memory'']"
    "untouched [''spark_python_task'', ''parameters'']"
    by (simp_all add: untouched_def touched_paths_def warehouse_path_def)
  have v: "lookup_path cfg [''max_retries''] = Some (JInt 3)"
    "lookup_path cfg [''email_notifications'', ''on_failure''] =
       Some (JList [JStr ''ops@example.org''])"
    "lookup_path cfg [''new_cluster'', ''num_workers''] = Some (JInt 2)"
    "lookup_path cfg [''new_cluster'', ''spark_conf'', ''spark.executor.memory''] =
       Some (JStr ''4g'')"
    "lookup_path cfg [''spark_python_task'', ''parameters''] = Some (JList [JStr ''--verbose''])"
    using frame u unfolding tpl by (simp_all add: rich_template_def)
  have libs: "libs = [JDict [(''jar'', JStr ''dbfs:/lib/a.jar'')],
                    JDict [(''pypi'', JDict [(''package'', JStr ''simplejson'')])]]"
    using l1 unfolding tpl by (simp add: rich_template_def)
  have "s = ''/mnt/{dtap}/warehouse''"
    using s unfolding tpl by (simp add: rich_template_def warehouse_path_def)
  then have "s' = ''/mnt/prd/warehouse''" using s' sf by simp
  then have wd': "lookup_path cfg warehouse_path = Some (JStr ''/mnt/prd/warehouse'')"
    using wd by simp
  have l1': "lookup_path rich_template [''libraries''] =
       Some (JList [JDict [(''jar'', JStr ''dbfs:/lib/a.jar'')],
                    JDict [(''pypi'', JDict [(''package'', JStr ''simplejson'')])]])"
    by (simp add: rich_template_def)
  have l2': "lookup_path cfg [''libraries''] =
       Some (JList [JDict [(''jar'', JStr ''dbfs:/lib/a.jar'')],
                    JDict [(''pypi'', JDict [(''package'', JStr ''simplejson'')])],
                    JDict [(''egg'', JStr ''e.egg'')]])"
    using l2 libs by simp
  have fr: "\<forall>p. untouched p \<longrightarrow> lookup_path cfg p = lookup_path rich_template p"
    using frame tpl by simp
  show ?thesis
    using c f fr u v l1' l2' n p wd' by blast
qed

section \<open>Properties of the deployment and of the release classifier\<close>

lemma has_schedule_built:
  "has_schedule (built d nc sc s' spt libs n egg py) = Inr (''schedule'' \<in> fst ` set d)"
  by (simp add: has_schedule_def built_def bind_res_def dom_update)

text \<open>
  Claim C6.  When the builder has returned a config (and the environment holds the
  application name and the credentials of the tier), the config is a dict, and
  \<open>deploy_application\<close> passes to the remover and to the submitter the same flag:
  streaming exactly when the key \<open>schedule\<close> is among the keys of the config, whatever
  its value, and batch exactly when it is not.
\<close>

theorem deploy_application_is_streaming:
  assumes "environ w ''BUILD_DEFINITIONNAME'' = Some app"
    and "construct_job_config JOB_CFG (app @ ''-'' @ version) dtap
           (ROOT_LIBRARY_FOLDER @ ''/'' @ app @ ''/'' @ app @ ''-'' @ version @ ''.egg'')
           (ROOT_LIBRARY_FOLDER @ ''/'' @ app @ ''/'' @ app @ ''-main-'' @ version @ ''.py'') w
         = (Inr cfg, w)"
    and "environ w (''AZURE_DATABRICKS_TOKEN_'' @ dtap) = Some token"
    and "environ w (''AZURE_DATABRICKS_HOST_'' @ dtap) = Some host"
  shows "\<exists>d t. cfg = JDict d \<and> files w JOB_CFG = Some (JDict t) \<and>
           (''schedule'' \<in> fst ` set d \<longleftrightarrow> ''schedule'' \<in> fst ` set t) \<and>
           has_schedule cfg = Inr (''schedule'' \<in> fst ` set d) \<and>
           deploy_application version dtap w =
             bind_io (remove_job app (''schedule'' \<in> fst ` set d))
               (\<lambda>_. bind_io (print ''Submitting new job with configuration:'')
               (\<lambda>_. bind_io (pprint cfg)
               (\<lambda>_. submit_job cfg (''schedule'' \<in> fst ` set d))))
               (w\<lparr>stdout := stdout w @ [Print ''Creating databricks client'',
                                         Print ''Removing old job'']\<rparr>)"
proof -
  have "fst (construct_job_config JOB_CFG (app @ ''-'' @ version) dtap
           (ROOT_LIBRARY_FOLDER @ ''/'' @ app @ ''/'' @ app @ ''-'' @ version @ ''.egg'')
           (ROOT_LIBRARY_FOLDER @ ''/'' @ app @ ''/'' @ app @ ''-main-'' @ version @ ''.py'') w)
         = Inr cfg" using assms(2) by simp
  from construct_job_config_Inr[OF this] obtain d nc sc s s' spt libs where
    f: "files w JOB_CFG = Some (JDict d)" and
    cfg: "cfg = built d nc sc s' spt libs (app @ ''-'' @ version)
             (ROOT_LIBRARY_FOLDER @ ''/'' @ app @ ''/'' @ app @ ''-'' @ version @ ''.egg'')
             (ROOT_LIBRARY_FOLDER @ ''/'' @ app @ ''/'' @ app @ ''-main-'' @ version @ ''.py'')"
    by (elim exE conjE) (rule that)
  obtain d' where d': "cfg = JDict d'" unfolding cfg built_def by simp
  have h: "has_schedule cfg = Inr (''schedule'' \<in> fst ` set d')"
    unfolding d' by (simp add: has_schedule_def bind_res_def)
  have "has_schedule cfg = Inr (''schedule'' \<in> fst ` set d)"
    unfolding cfg by (rule has_schedule_built)
  then have e: "''schedule'' \<in> fst ` set d' \<longleftrightarrow> ''schedule'' \<in> fst ` set d"
    using h by simp
  have "deploy_application version dtap w =
             bind_io (remove_job app (''schedule'' \<in> fst ` set d'))
               (\<lambda>_. bind_io (print ''Submitting new job with configuration:'')
               (\<lambda>_. bind_io (pprint cfg)
               (\<lambda>_. submit_job cfg (''schedule'' \<in> fst ` set d'))))
               (w\<lparr>stdout := stdout w @ [Print ''Creating databricks client'',
                                         Print ''Removing old job'']\<rparr>)"
    using assms h
    by (simp add: deploy_application_def bind_io_def getenv_def print_def lift_io_def)
  then show ?thesis using d' h e f by blast
qed


theorem deploy_application_is_streaming_witness:
  "environ (build_world [] ''master'' scheduled_template) ''BUILD_DEFINITIONNAME'' = Some ''app'' \<and>
   has_schedule scheduled_template = Inr True \<and>
   has_schedule scenario_template = Inr False \<and>
   (\<exists>d t. files (build_world [] ''master'' scheduled_template) JOB_CFG = Some (JDict t) \<and>
      ''schedule'' \<in> fst ` set t \<and> ''schedule'' \<in> fst ` set d \<and>
      deploy_application ''SNAPSHOT'' ''DEV'' (build_world [] ''master'' scheduled_template) =
        bind_io (remove_job ''app'' (''schedule'' \<in> fst ` set d))
          (\<lambda>_. bind_io (print ''Submitting new job with configuration:'')
          (\<lambda>_. bind_io (pprint (JDict d))
          (\<lambda>_. submit_job (JDict d) (''schedule'' \<in> fst ` set d))))
          ((build_world [] ''master'' scheduled_template)
             \<lparr>stdout := stdout (build_world [] ''master'' scheduled_template) @
                [Print ''Creating databricks client'', Print ''Removing old job'']\<rparr>))"
proof -
  let ?w = "build_world [] ''master'' scheduled_template"
  let ?egg = "ROOT_LIBRARY_FOLDER @ ''/'' @ ''app'' @ ''/'' @ ''app'' @ ''-'' @ ''SNAPSHOT'' @ ''.egg''"
  let ?py = "ROOT_LIBRARY_FOLDER @ ''/'' @ ''app'' @ ''/'' @ ''app'' @ ''-main-'' @ ''SNAPSHOT'' @ ''.py''"
  have 1: "environ ?w ''BUILD_DEFINITIONNAME'' = Some ''app''" by (simp add: build_world_def)
  have 3: "environ ?w (''AZURE_DATABRICKS_TOKEN_'' @ ''DEV'') = Some ''token-dev''"
    by (simp add: build_world_def)
  have 4: "environ ?w (''AZURE_DATABRICKS_HOST_'' @ ''DEV'') = Some ''host-dev''"
    by (simp add: build_world_def)
  have f: "files ?w JOB_CFG = Some scheduled_template"
    by (simp add: build_world_def JOB_CFG_def)
  obtain cfg where c: "fst (construct_job_config JOB_CFG (''app'' @ ''-'' @ ''SNAPSHOT'') ''DEV'' ?egg ?py ?w)
                         = Inr cfg"
  proof -
    have nb: "no_braces ''/mnt/''" "no_braces []" by (simp_all add: no_braces_def)
    have "str_format ''/mnt/{dtap}'' (lower ''DEV'') = Inr (''/mnt/'' @ lower ''DEV'')"
      using str_format_dtap[OF nb, of "lower ''DEV''"] by simp
    then have "\<exists>cfg. fst (construct_job_config JOB_CFG (''app'' @ ''-'' @ ''SNAPSHOT'') ''DEV'' ?egg ?py ?w)
                         = Inr cfg"
      unfolding construct_job_config_fst[OF f]
      by (simp add: scheduled_template_def warehouse_dir_def bind_res_def)
    then show ?thesis using that by blast
  qed
  then have 2: "construct_job_config JOB_CFG (''app'' @ ''-'' @ ''SNAPSHOT'') ''DEV'' ?egg ?py ?w
                  = (Inr cfg, ?w)"
    using construct_job_config_world[of JOB_CFG "''app'' @ ''-'' @ ''SNAPSHOT''" "''DEV''" ?egg ?py ?w]
    by (metis prod.collapse)
  have s: "has_schedule scheduled_template = Inr True"
    by (simp add: has_schedule_def scheduled_template_def bind_res_def)
  have s': "has_schedule scenario_template = Inr False"
    by (simp add: has_schedule_def scenario_template_def bind_res_def)
  have t: "''schedule'' \<in> fst ` set
                [(''new_cluster'',
               JDict [(''spark_conf'', JDict [(''spark.sql.warehouse.dir'', JStr ''/mnt/{dtap}'')])]),
            (''spark_python_task'', JDict []),
            (''libraries'', JList []),
            (''schedule'', JDict [(''quartz_cron_expression'', JStr ''0 0 * * * ?'')])]"
    by simp
  from deploy_application_is_streaming[OF 1 2 3 4] obtain d t where
    "cfg = JDict d" "files ?w JOB_CFG = Some (JDict t)"
    "''schedule'' \<in> fst ` set d \<longleftrightarrow> ''schedule'' \<in> fst ` set t"
    "deploy_application ''SNAPSHOT'' ''DEV'' ?w =
        bind_io (remove_job ''app'' (''schedule'' \<in> fst ` set d))
          (\<lambda>_. bind_io (print ''Submitting new job with configuration:'')
          (\<lambda>_. bind_io (pprint cfg)
          (\<lambda>_. submit_job cfg (''schedule'' \<in> fst ` set d))))
          (?w\<lparr>stdout := stdout ?w @
                [Print ''Creating databricks client'', Print ''Removing old job'']\<rparr>)"
    by (elim exE conjE) (rule that)
  moreover from this(2) f have "''schedule'' \<in> fst ` set t"
    using t by (simp add: scheduled_template_def)
  ultimately show ?thesis using 1 s s' by blast
qed

text \<open>
  Claim C5.  With the branch name in the environment, \<open>main\<close> does one of three things.
  When a tag points at the head commit, it deploys with the name of the first such tag
  as version and the tier PRD.  Otherwise, on the branch master it deploys with the
  version SNAPSHOT and the tier DEV.  Otherwise it deploys nothing: it sends no request,
  prints one message that names the branch, and ends without an error.
\<close>

theorem main_classifier:
  assumes "environ w ''BUILD_SOURCEBRANCHNAME'' = Some branch"
  shows "(\<forall>t. find (\<lambda>t. tag_commit t = head_commit w) (repo_tags w) = Some t \<longrightarrow>
            main w = deploy_application (tag_name t) ''PRD'' w) \<and>
         ((\<exists>t\<in>set (repo_tags w). tag_commit t = head_commit w) \<longrightarrow>
            (\<exists>t\<in>set (repo_tags w). tag_commit t = head_commit w \<and>
               main w = deploy_application (tag_name t) ''PRD'' w)) \<and>
         (\<not> (\<exists>t\<in>set (repo_tags w). tag_commit t = head_commit w) \<and> branch = ''master'' \<longrightarrow>
            main w = deploy_application ''SNAPSHOT'' ''DEV'' w) \<and>
         (\<not> (\<exists>t\<in>set (repo_tags w). tag_commit t = head_commit w) \<and> branch \<noteq> ''master'' \<longrightarrow>
            main w = (Inr (), w\<lparr>stdout := stdout w @ [Print (skip_message branch)]\<rparr>) \<and>
            calls (snd (main w)) = calls w \<and>
            (\<exists>pre post. skip_message branch = pre @ branch @ post))"
proof (intro conjI impI allI)
  fix t
  assume "find (\<lambda>t. tag_commit t = head_commit w) (repo_tags w) = Some t"
  then show "main w = deploy_application (tag_name t) ''PRD'' w"
    using assms by (simp add: main_def bind_io_def getenv_def)
next
  assume "\<exists>t\<in>set (repo_tags w). tag_commit t = head_commit w"
  then obtain t where t: "find (\<lambda>t. tag_commit t = head_commit w) (repo_tags w) = Some t"
    by (cases "find (\<lambda>t. tag_commit t = head_commit w) (repo_tags w)")
       (auto simp: find_None_iff)
  then have "t \<in> set (repo_tags w)" "tag_commit t = head_commit w"
    by (auto simp: find_Some_iff)
  moreover have "main w = deploy_application (tag_name t) ''PRD'' w"
    using assms t by (simp add: main_def bind_io_def getenv_def)
  ultimately show "\<exists>t\<in>set (repo_tags w). tag_commit t = head_commit w \<and>
               main w = deploy_application (tag_name t) ''PRD'' w" by blast
next
  assume a: "\<not> (\<exists>t\<in>set (repo_tags w). tag_commit t = head_commit w) \<and> branch = ''master''"
  then have "find (\<lambda>t. tag_commit t = head_commit w) (repo_tags w) = None"
    by (simp add: find_None_iff)
  then show "main w = deploy_application ''SNAPSHOT'' ''DEV'' w"
    using assms a by (simp add: main_def bind_io_def getenv_def)
next
  assume a: "\<not> (\<exists>t\<in>set (repo_tags w). tag_commit t = head_commit w) \<and> branch \<noteq> ''master''"
  then have n: "find (\<lambda>t. tag_commit t = head_commit w) (repo_tags w) = None"
    by (simp add: find_None_iff)
  show m: "main w = (Inr (), w\<lparr>stdout := stdout w @ [Print (skip_message branch)]\<rparr>)"
    using assms a n by (simp add: main_def bind_io_def getenv_def print_def)
  show "calls (snd (main w)) = calls w" unfolding m by simp
  have "skip_message branch =
          (''Not a release (tag not available),'' @ [CHR 0x0A] @
           ''            nor master branch (branch = '' @ [CHR 0x22]) @ branch @
          ([CHR 0x22] @ ''. Not deploying'')"
    by (simp add: skip_message_def)
  then show "\<exists>pre post. skip_message branch = pre @ branch @ post" by blast
qed

theorem main_classifier_witness:
  "environ (build_world [\<lparr>tag_name = ''2.3.1'', tag_commit = ''c1''\<rparr>] ''feature/x'' scenario_template)
     ''BUILD_SOURCEBRANCHNAME'' = Some ''feature/x'' \<and>
   main (build_world [\<lparr>tag_name = ''2.3.1'', tag_commit = ''c1''\<rparr>] ''feature/x'' scenario_template) =
     deploy_application ''2.3.1'' ''PRD''
       (build_world [\<lparr>tag_name = ''2.3.1'', tag_commit = ''c1''\<rparr>] ''feature/x'' scenario_template) \<and>
   main (build_world [\<lparr>tag_name = ''2.3.0'', tag_commit = ''c0''\<rparr>] ''master'' scenario_template) =
     deploy_application ''SNAPSHOT'' ''DEV''
       (build_world [\<lparr>tag_name = ''2.3.0'', tag_commit = ''c0''\<rparr>] ''master'' scenario_template) \<and>
   fst (main (build_world [] ''feature/x'' scenario_template)) = Inr () \<and>
   calls (snd (main (build_world [] ''feature/x'' scenario_template))) = []"
proof -
  let ?w1 = "build_world [\<lparr>tag_name = ''2.3.1'', tag_commit = ''c1''\<rparr>] ''feature/x'' scenario_template"
  let ?w2 = "build_world [\<lparr>tag_name = ''2.3.0'', tag_commit = ''c0''\<rparr>] ''master'' scenario_template"
  let ?w3 = "build_world [] ''feature/x'' scenario_template"
  have e1: "environ ?w1 ''BUILD_SOURCEBRANCHNAME'' = Some ''feature/x''"
    by (simp add: build_world_def)
  have e2: "environ ?w2 ''BUILD_SOURCEBRANCHNAME'' = Some ''master''"
    by (simp add: build_world_def)
  have e3: "environ ?w3 ''BUILD_SOURCEBRANCHNAME'' = Some ''feature/x''"
    by (simp add: build_world_def)
  have f1: "find (\<lambda>t. tag_commit t = head_commit ?w1) (repo_tags ?w1)
              = Some \<lparr>tag_name = ''2.3.1'', tag_commit = ''c1''\<rparr>"
    by (simp add: build_world_def)
  have f2: "\<not> (\<exists>t\<in>set (repo_tags ?w2). tag_commit t = head_commit ?w2)"
    by (simp add: build_world_def)
  have f3: "\<not> (\<exists>t\<in>set (repo_tags ?w3). tag_commit t = head_commit ?w3)"
    by (simp add: build_world_def)
  have 1: "main ?w1 = deploy_application ''2.3.1'' ''PRD'' ?w1"
    using main_classifier[OF e1] f1 by simp
  have 2: "main ?w2 = deploy_application ''SNAPSHOT'' ''DEV'' ?w2"
    using main_classifier[OF e2] f2 by blast
  have 3: "main ?w3 = (Inr (), ?w3\<lparr>stdout := stdout ?w3 @ [Print (skip_message ''feature/x'')]\<rparr>)"
    using main_classifier[OF e3] f3 by simp
  have "calls ?w3 = []" by (simp add: build_world_def)
  then show ?thesis using e1 1 2 3 by simp
qed

end
